theory Spec2Isabelle
  imports Complex_Main "HOL-Library.Word"
begin

unbundle bit_operations_syntax

section \<open>Python values\<close>

text \<open>
  The agent keeps whatever \<^verbatim>\<open>response.json()\<close> returned and reads it with
  \<^verbatim>\<open>.get\<close>, \<^verbatim>\<open>[...]\<close>, truth tests and comparisons, so a configuration, a sensor
  entry or a command is a dynamically typed JSON value. Python's \<^verbatim>\<open>None\<close> is \<open>JNull\<close>.
  Numbers are exact: an integer is \<open>JInt\<close>, a float is \<open>JFloat\<close> carrying a rational
  (the rounding of float arithmetic is not modelled). A \<open>JDict\<close> lists the entries of
  the parsed dict, looked up with \<open>map_of\<close>.
\<close>

datatype json =
    JNull
  | JBool bool
  | JInt int
  | JFloat rat
  | JStr string
  | JList "json list"
  | JDict "(string \<times> json) list"

datatype py_exception =
    KeyError
  | TypeError
  | AttributeError
  | RequestException
  | SerialException
  | OtherException

text \<open>What a call does: it returns a value or raises.\<close>

datatype 'a outcome = Return 'a | Raise py_exception

text \<open>Truth value of an object, as \<^verbatim>\<open>if x\<close> and \<^verbatim>\<open>not x\<close> test it.\<close>

fun truthy :: "json \<Rightarrow> bool" where
  "truthy JNull = False"
| "truthy (JBool b) = b"
| "truthy (JInt n) = (n \<noteq> 0)"
| "truthy (JFloat q) = (q \<noteq> 0)"
| "truthy (JStr s) = (s \<noteq> [])"
| "truthy (JList xs) = (xs \<noteq> [])"
| "truthy (JDict kvs) = (kvs \<noteq> [])"

text \<open>\<^verbatim>\<open>x.get(key, default)\<close>: only a dict has the method.\<close>

fun py_get :: "json \<Rightarrow> string \<Rightarrow> json \<Rightarrow> json outcome" where
  "py_get (JDict kvs) key dflt = Return (case map_of kvs key of None \<Rightarrow> dflt | Some v \<Rightarrow> v)"
| "py_get _ key dflt = Raise AttributeError"

text \<open>\<^verbatim>\<open>x['key']\<close> with a string key: a missing key is a KeyError, any other object
  (None, a number, a string, a list) a TypeError.\<close>

fun py_index :: "json \<Rightarrow> string \<Rightarrow> json outcome" where
  "py_index (JDict kvs) key = (case map_of kvs key of None \<Rightarrow> Raise KeyError | Some v \<Rightarrow> Return v)"
| "py_index _ key = Raise TypeError"

text \<open>\<^verbatim>\<open>len(x)\<close>.\<close>

fun py_len :: "json \<Rightarrow> nat outcome" where
  "py_len (JStr s) = Return (length s)"
| "py_len (JList xs) = Return (length xs)"
| "py_len (JDict kvs) = Return (length kvs)"
| "py_len _ = Raise TypeError"

text \<open>\<^verbatim>\<open>for x in v\<close>: a list gives its elements, a dict its keys, a string its
  characters; nothing else is iterable.\<close>

fun py_iter :: "json \<Rightarrow> json list outcome" where
  "py_iter (JList xs) = Return xs"
| "py_iter (JDict kvs) = Return (map (\<lambda>kv. JStr (fst kv)) kvs)"
| "py_iter (JStr s) = Return (map (\<lambda>c. JStr [c]) s)"
| "py_iter _ = Raise TypeError"

text \<open>The number an object stands for in an ordering comparison with a number
  (\<^verbatim>\<open>True\<close> is 1); comparing anything else with a number is a TypeError.\<close>

fun as_number :: "json \<Rightarrow> rat option" where
  "as_number (JInt n) = Some (of_int n)"
| "as_number (JFloat q) = Some q"
| "as_number (JBool b) = Some (if b then 1 else 0)"
| "as_number _ = None"

text \<open>\<^verbatim>\<open>x > 0\<close>\<close>

definition py_gt0 :: "json \<Rightarrow> bool outcome" where
  "py_gt0 x = (case as_number x of None \<Rightarrow> Raise TypeError | Some n \<Rightarrow> Return (n > 0))"

text \<open>\<^verbatim>\<open>d >= x\<close> for a float \<open>d\<close>\<close>

definition py_ge :: "rat \<Rightarrow> json \<Rightarrow> bool outcome" where
  "py_ge d x = (case as_number x of None \<Rightarrow> Raise TypeError | Some n \<Rightarrow> Return (d \<ge> n))"

text \<open>Dict keys: lists and dicts are unhashable; equal numbers (1, 1.0, True) are the
  same key.\<close>

datatype py_key = KNone | KNum rat | KStr string

fun hashable :: "json \<Rightarrow> py_key outcome" where
  "hashable JNull = Return KNone"
| "hashable (JBool b) = Return (KNum (if b then 1 else 0))"
| "hashable (JInt n) = Return (KNum (of_int n))"
| "hashable (JFloat q) = Return (KNum q)"
| "hashable (JStr s) = Return (KStr s)"
| "hashable (JList xs) = Raise TypeError"
| "hashable (JDict kvs) = Raise TypeError"

section \<open>drivers/dfrobot_ult_driver.py\<close>

type_synonym byte = "8 word"

text \<open>\<^verbatim>\<open>round(x, 1)\<close> on an exact number: to one decimal, ties to even.\<close>

definition py_round1 :: "rat \<Rightarrow> rat" where
  "py_round1 x =
     (let s = x * 10; f = \<lfloor>s\<rfloor> in
      if s - of_int f < 1 / 2 then of_int f / 10
      else if s - of_int f > 1 / 2 then of_int (f + 1) / 10
      else of_int (if even f then f else f + 1) / 10)"

text \<open>\<^verbatim>\<open>sum(buffer[0:3]) & 0xFF\<close> and \<^verbatim>\<open>(buffer[1] << 8) | buffer[2]\<close>, on Python
  integers.\<close>

definition checksum :: "byte \<Rightarrow> byte \<Rightarrow> byte \<Rightarrow> int" where
  "checksum b0 b1 b2 = (uint b0 + uint b1 + uint b2) AND 255"

definition distance_mm :: "byte \<Rightarrow> byte \<Rightarrow> int" where
  "distance_mm b1 b2 = push_bit 8 (uint b1) OR uint b2"

definition distance_cm :: "byte \<Rightarrow> byte \<Rightarrow> rat" where
  "distance_cm b1 b2 = py_round1 (of_int (distance_mm b1 b2) / 10)"

text \<open>The inner loop \<^verbatim>\<open>while len(buffer) >= 4\<close>: it returns from \<open>read\<close> with a
  distance, or falls through with fewer than four bytes left in the buffer.\<close>

datatype scan_result = Found rat | Rest "byte list"

fun scan_buffer :: "byte list \<Rightarrow> scan_result" where
  "scan_buffer (b0 # b1 # b2 # b3 # rest) =
     (if b0 = 0xFF then
        (if checksum b0 b1 b2 = uint b3 then Found (distance_cm b1 b2)
         else scan_buffer (b1 # b2 # b3 # rest))
      else scan_buffer (b1 # b2 # b3 # rest))"
| "scan_buffer buffer = Rest buffer"

text \<open>The outer loop \<^verbatim>\<open>while time.time() - start_time < 3\<close>: the chunks are what the
  successive \<^verbatim>\<open>ser.read(ser.in_waiting or 1)\<close> calls returned before the three seconds
  were over; when they are used up the loop ends and \<open>read\<close> returns None.\<close>

fun read_frames :: "byte list \<Rightarrow> byte list list \<Rightarrow> rat option" where
  "read_frames buffer [] = None"
| "read_frames buffer (chunk # chunks) =
     (case scan_buffer (buffer @ chunk) of
        Found d \<Rightarrow> Some d
      | Rest buffer' \<Rightarrow> read_frames buffer' chunks)"

text \<open>What the serial port does during one \<open>read\<close>: opening it raises, or it delivers
  chunks until the loop ends. A \<^verbatim>\<open>ser.read\<close> that raises ends the loop with None, as
  the timeout does.\<close>

datatype serial_io = OpenFails py_exception | Chunks "byte list list"

text \<open>\<open>DfrobotUltDriver.read\<close>. Both handlers (\<^verbatim>\<open>SerialException\<close>, \<^verbatim>\<open>Exception\<close>)
  return None, which is \<open>JNull\<close>.\<close>

definition DfrobotUltDriver_read :: "json \<Rightarrow> serial_io \<Rightarrow> json outcome" where
  "DfrobotUltDriver_read config ser =
     (case py_get config ''port'' JNull of
        Raise e \<Rightarrow> Raise e
      | Return port \<Rightarrow>
          if \<not> truthy port then Return JNull
          else (case ser of
                  OpenFails e \<Rightarrow> Return JNull
                | Chunks chunks \<Rightarrow>
                    (case read_frames [] chunks of
                       None \<Rightarrow> Return JNull
                     | Some d \<Rightarrow> Return (JDict [(''distance_cm'', JFloat d)]))))"

section \<open>agent.py: the agent and its surroundings\<close>

text \<open>
  \<open>self.state\<close> only ever holds one of four string literals:
  INITIALIZING is "BASLATILIYOR", CONFIGURING is "YAPILANDIRILIYOR", ONLINE is
  "CEVRIMICI" and OFFLINE is "CEVRIMDISI" (written in the source with Turkish letters).
\<close>

datatype agent_state = INITIALIZING | CONFIGURING | ONLINE | OFFLINE

text \<open>A driver instance is an object: the driver name it was built for and the
  identity it got when it was constructed.\<close>

datatype driver = Driver string nat

text \<open>What a \<open>requests\<close> call gives back: it raises a RequestException (no connection,
  timeout), or there is a response with a status code and a body, the body already
  decoded as JSON. A body that does not decode is outside the model.\<close>

datatype http_result = RequestFails | Response nat json

text \<open>\<^verbatim>\<open>response.raise_for_status()\<close> raises HTTPError, a RequestException, for the
  status codes 400 to 599.\<close>

definition raise_for_status :: "nat \<Rightarrow> bool" where
  "raise_for_status code = (400 \<le> code \<and> code < 600)"

text \<open>A request followed by \<open>raise_for_status\<close> ends in a RequestException.\<close>

definition request_fails :: "http_result \<Rightarrow> bool" where
  "request_fails r =
     (case r of RequestFails \<Rightarrow> True | Response code body \<Rightarrow> raise_for_status code)"

text \<open>
  Everything the agent does to the outside, in the order it happens. Each call of a
  collaborator is recorded with its arguments and with what came back.
  \<open>ReadStarted\<close> is the line \<^verbatim>\<open>[OKUMA BASLADI]\<close> printed for a sensor, and
  \<open>SetLastRead\<close> records the write to \<open>self.last_read_times\<close>, so that its place
  among the calls can be stated.
\<close>

datatype event =
    TimeRead rat
  | HttpGetConfig http_result
  | HttpGetCommands http_result
  | HttpPostReading json http_result
  | HttpPostStatus json string http_result
  | ReadStarted json
  | SetLastRead py_key rat
  | ImportDriver py_key "driver option"
  | DriverRead driver json "json outcome"
  | CaptureImage json "bool outcome"

text \<open>
  The surroundings answer every call; an answer may depend on everything that has
  happened so far. \<open>import_driver\<close> stands for lines 136 to 145 of \<open>load_driver\<close>
  (find the file, execute the module, find the class, construct it): True when all of it
  succeeds. \<open>driver_read\<close> is \<^verbatim>\<open>driver.read(config)\<close> of whatever driver was loaded; it
  returns a reading or None (\<open>JNull\<close>), or raises.
  \<open>capture_image\<close> is the method of that name (camera lookup, ffmpeg, file and upload),
  which returns a bool or raises.
\<close>

record env =
  clock :: "event list \<Rightarrow> rat"
  http_get_config :: "event list \<Rightarrow> http_result"
  http_get_commands :: "event list \<Rightarrow> http_result"
  http_post_reading :: "event list \<Rightarrow> json \<Rightarrow> http_result"
  http_post_status :: "event list \<Rightarrow> json \<Rightarrow> string \<Rightarrow> http_result"
  import_driver :: "event list \<Rightarrow> string \<Rightarrow> bool"
  driver_read :: "event list \<Rightarrow> driver \<Rightarrow> json \<Rightarrow> json outcome"
  capture_image :: "event list \<Rightarrow> json \<Rightarrow> bool outcome"

text \<open>The fields of \<open>Agent\<close> that change; \<open>io_log\<close> is the record of events so far.
  A method returns its outcome together with the agent as it has left it: an exception
  does not undo the assignments made before it.\<close>

record agent =
  state :: agent_state
  config :: json
  driver_instances :: "py_key \<rightharpoonup> driver"
  last_read_times :: "py_key \<rightharpoonup> rat"
  global_read_frequency_seconds :: json
  io_log :: "event list"

definition Agent_init :: agent where
  "Agent_init =
     \<lparr>state = INITIALIZING, config = JNull, driver_instances = Map.empty,
      last_read_times = Map.empty, global_read_frequency_seconds = JInt 0, io_log = []\<rparr>"

definition log_event :: "event \<Rightarrow> agent \<Rightarrow> agent" where
  "log_event e a = a\<lparr>io_log := io_log a @ [e]\<rparr>"

definition set_state :: "agent_state \<Rightarrow> agent \<Rightarrow> agent" where
  "set_state new_state a = (if state a \<noteq> new_state then a\<lparr>state := new_state\<rparr> else a)"

definition time_time :: "env \<Rightarrow> agent \<Rightarrow> rat \<times> agent" where
  "time_time E a = (let t = clock E (io_log a) in (t, log_event (TimeRead t) a))"

subsection \<open>fetch_config\<close>

text \<open>The handler is \<^verbatim>\<open>except requests.exceptions.RequestException\<close>: the KeyError,
  TypeError or AttributeError of a body of the wrong shape is not caught by it.\<close>

definition fetch_config :: "env \<Rightarrow> agent \<Rightarrow> unit outcome \<times> agent" where
  "fetch_config E a =
     (let a1 = set_state CONFIGURING a;
          r = http_get_config E (io_log a1);
          a2 = log_event (HttpGetConfig r) a1
      in case r of
           RequestFails \<Rightarrow> (Return (), set_state OFFLINE a2)
         | Response code body \<Rightarrow>
             if raise_for_status code then (Return (), set_state OFFLINE a2)
             else
               (let a3 = a2\<lparr>config := body\<rparr> in
                case py_get body ''global_read_frequency_seconds'' (JInt 0) of
                  Raise e \<Rightarrow> (Raise e, a3)
                | Return g \<Rightarrow>
                    (let a4 = a3\<lparr>global_read_frequency_seconds := g\<rparr> in
                     case py_index body ''sensors'' of
                       Raise e \<Rightarrow> (Raise e, a4)
                     | Return ss \<Rightarrow>
                         (case py_len ss of
                            Raise e \<Rightarrow> (Raise e, a4)
                          | Return ns \<Rightarrow>
                              (case py_index body ''cameras'' of
                                 Raise e \<Rightarrow> (Raise e, a4)
                               | Return cs \<Rightarrow>
                                   (case py_len cs of
                                      Raise e \<Rightarrow> (Raise e, a4)
                                    | Return nc \<Rightarrow> (Return (), set_state ONLINE a4)))))))"

subsection \<open>get_effective_frequency\<close>

definition get_effective_frequency :: "agent \<Rightarrow> json \<Rightarrow> json outcome" where
  "get_effective_frequency a sensor_config =
     (case py_gt0 (global_read_frequency_seconds a) of
        Raise e \<Rightarrow> Raise e
      | Return positive \<Rightarrow>
          if positive then Return (global_read_frequency_seconds a)
          else py_get sensor_config ''read_frequency'' (JInt 300))"

subsection \<open>load_driver\<close>

text \<open>The membership test \<^verbatim>\<open>driver_name in self.driver_instances\<close> is before the
  \<open>try\<close>, so an unhashable name raises. Inside the \<open>try\<close> every exception gives None;
  a name that is not a string always ends there, at \<^verbatim>\<open>driver_name.split\<close> if not
  before. The new instance gets the length of the log as its identity.\<close>

definition load_driver :: "env \<Rightarrow> json \<Rightarrow> agent \<Rightarrow> driver option outcome \<times> agent" where
  "load_driver E driver_name a =
     (case hashable driver_name of
        Raise e \<Rightarrow> (Raise e, a)
      | Return k \<Rightarrow>
          (case driver_instances a k of
             Some d \<Rightarrow> (Return (Some d), a)
           | None \<Rightarrow>
               (case driver_name of
                  JStr n \<Rightarrow>
                    if import_driver E (io_log a) n then
                      (let instance = Driver n (length (io_log a)) in
                       (Return (Some instance),
                        log_event (ImportDriver k (Some instance))
                          (a\<lparr>driver_instances := (driver_instances a)(k \<mapsto> instance)\<rparr>)))
                    else (Return None, log_event (ImportDriver k None) a)
                | _ \<Rightarrow> (Return None, log_event (ImportDriver k None) a))))"

subsection \<open>send_reading\<close>

definition send_reading :: "env \<Rightarrow> json \<Rightarrow> agent \<Rightarrow> unit outcome \<times> agent" where
  "send_reading E payload a =
     (let r = http_post_reading E (io_log a) payload;
          a1 = log_event (HttpPostReading payload r) a
      in case r of
           RequestFails \<Rightarrow> (Return (), set_state OFFLINE a1)
         | Response code body \<Rightarrow>
             if raise_for_status code then (Return (), set_state OFFLINE a1)
             else (Return (), a1))"

subsection \<open>process_sensors\<close>

text \<open>The condition of the list comprehension, \<^verbatim>\<open>s.get('is_active') and
  s.get('interface') != 'virtual'\<close>.\<close>

definition is_eligible :: "json \<Rightarrow> bool outcome" where
  "is_eligible s =
     (case py_get s ''is_active'' JNull of
        Raise e \<Rightarrow> Raise e
      | Return act \<Rightarrow>
          if \<not> truthy act then Return False
          else (case py_get s ''interface'' JNull of
                  Raise e \<Rightarrow> Raise e
                | Return i \<Rightarrow> Return (i \<noteq> JStr ''virtual'')))"

fun active_sensors :: "json list \<Rightarrow> json list outcome" where
  "active_sensors [] = Return []"
| "active_sensors (s # ss) =
     (case is_eligible s of
        Raise e \<Rightarrow> Raise e
      | Return keep \<Rightarrow>
          (case active_sensors ss of
             Raise e \<Rightarrow> Raise e
           | Return rest \<Rightarrow> Return (if keep then s # rest else rest)))"

text \<open>\<^verbatim>\<open>sensor_config['parser_config']['driver']\<close>\<close>

definition parser_driver :: "json \<Rightarrow> json outcome" where
  "parser_driver sensor_config =
     (case py_index sensor_config ''parser_config'' of
        Raise e \<Rightarrow> Raise e
      | Return pc \<Rightarrow> py_index pc ''driver'')"

text \<open>The body of the \<open>try\<close> block, lines 116 to 125.\<close>

definition try_read :: "env \<Rightarrow> json \<Rightarrow> json \<Rightarrow> agent \<Rightarrow> unit outcome \<times> agent" where
  "try_read E sensor_config sid a =
     (case parser_driver sensor_config of
        Raise e \<Rightarrow> (Raise e, a)
      | Return driver_name \<Rightarrow>
          (case load_driver E driver_name a of
             (Raise e, a1) \<Rightarrow> (Raise e, a1)
           | (Return None, a1) \<Rightarrow> (Return (), a1)
           | (Return (Some drv), a1) \<Rightarrow>
               (case py_index sensor_config ''config'' of
                  Raise e \<Rightarrow> (Raise e, a1)
                | Return cfg \<Rightarrow>
                    (let r = driver_read E (io_log a1) drv cfg;
                         a2 = log_event (DriverRead drv cfg r) a1
                     in case r of
                          Raise e \<Rightarrow> (Raise e, a2)
                        | Return reading \<Rightarrow>
                            if reading \<noteq> JNull then
                              send_reading E
                                (JDict [(''sensor'', sid), (''value'', reading)]) a2
                            else (Return (), a2)))))"

text \<open>\<^verbatim>\<open>self.last_read_times.get(key, 0)\<close>\<close>

definition last_read :: "agent \<Rightarrow> py_key \<Rightarrow> rat" where
  "last_read a k = (case last_read_times a k of None \<Rightarrow> 0 | Some t \<Rightarrow> t)"

text \<open>Lines 112 and 113: the start line is printed, then the time of the attempt is
  written to \<open>self.last_read_times\<close>.\<close>

definition begin_read :: "rat \<Rightarrow> json \<Rightarrow> py_key \<Rightarrow> agent \<Rightarrow> agent" where
  "begin_read now sensor_config k a =
     (let a1 = log_event (ReadStarted sensor_config) a
      in log_event (SetLastRead k now)
           (a1\<lparr>last_read_times := (last_read_times a1)(k \<mapsto> now)\<rparr>))"

text \<open>The body of the \<open>for\<close> loop for one sensor. The handler \<^verbatim>\<open>except Exception\<close>
  prints \<^verbatim>\<open>sensor_config['parser_config']['driver']\<close>, which raises again when that
  lookup was what failed; the \<open>finally\<close> block prints the name already read.\<close>

definition read_sensor :: "env \<Rightarrow> rat \<Rightarrow> json \<Rightarrow> agent \<Rightarrow> unit outcome \<times> agent" where
  "read_sensor E now sensor_config a =
     (case py_index sensor_config ''id'' of
        Raise e \<Rightarrow> (Raise e, a)
      | Return sid \<Rightarrow>
      (case hashable sid of
        Raise e \<Rightarrow> (Raise e, a)
      | Return k \<Rightarrow>
      (case get_effective_frequency a sensor_config of
        Raise e \<Rightarrow> (Raise e, a)
      | Return read_frequency \<Rightarrow>
      (case py_ge (now - last_read a k) read_frequency of
        Raise e \<Rightarrow> (Raise e, a)
      | Return due \<Rightarrow>
          if \<not> due then (Return (), a)
          else
      (case py_index sensor_config ''name'' of
        Raise e \<Rightarrow> (Raise e, a)
      | Return name \<Rightarrow>
          (case try_read E sensor_config sid (begin_read now sensor_config k a) of
             (Return u, a3) \<Rightarrow> (Return (), a3)
           | (Raise e, a3) \<Rightarrow>
               (case parser_driver sensor_config of
                  Raise e' \<Rightarrow> (Raise e', a3)
                | Return dn \<Rightarrow> (Return (), a3))))))))"

fun sensor_loop :: "env \<Rightarrow> rat \<Rightarrow> json list \<Rightarrow> agent \<Rightarrow> unit outcome \<times> agent" where
  "sensor_loop E now [] a = (Return (), a)"
| "sensor_loop E now (sensor_config # rest) a =
     (case read_sensor E now sensor_config a of
        (Raise e, a1) \<Rightarrow> (Raise e, a1)
      | (Return u, a1) \<Rightarrow> sensor_loop E now rest a1)"

definition process_sensors :: "env \<Rightarrow> agent \<Rightarrow> unit outcome \<times> agent" where
  "process_sensors E a =
     (if state a \<noteq> ONLINE \<or> \<not> truthy (config a) then (Return (), a)
      else
        (let (now, a1) = time_time E a in
         case py_get (config a1) ''sensors'' (JList []) of
           Raise e \<Rightarrow> (Raise e, a1)
         | Return ss \<Rightarrow>
             (case py_iter ss of
                Raise e \<Rightarrow> (Raise e, a1)
              | Return xs \<Rightarrow>
                  (case active_sensors xs of
                     Raise e \<Rightarrow> (Raise e, a1)
                   | Return active \<Rightarrow> sensor_loop E now active a1))))"

subsection \<open>Commands\<close>

text \<open>\<open>update_command_status\<close> posts without \<open>raise_for_status\<close> and swallows a
  RequestException.\<close>

definition update_command_status :: "env \<Rightarrow> json \<Rightarrow> string \<Rightarrow> agent \<Rightarrow> unit outcome \<times> agent" where
  "update_command_status E command_id status a =
     (let r = http_post_status E (io_log a) command_id status
      in (Return (), log_event (HttpPostStatus command_id status r) a))"

definition call_capture_image :: "env \<Rightarrow> json \<Rightarrow> agent \<Rightarrow> bool outcome \<times> agent" where
  "call_capture_image E camera_id a =
     (let r = capture_image E (io_log a) camera_id
      in (r, log_event (CaptureImage camera_id r) a))"

text \<open>\<open>analyze_snow_depth\<close> is a placeholder that prints a warning and returns True.\<close>

definition analyze_snow_depth :: "json \<Rightarrow> json \<Rightarrow> agent \<Rightarrow> bool outcome \<times> agent" where
  "analyze_snow_depth camera_id virtual_sensor_id a = (Return True, a)"

text \<open>\<^verbatim>\<open>command['payload'][field]\<close>\<close>

definition payload_field :: "json \<Rightarrow> string \<Rightarrow> json outcome" where
  "payload_field command field =
     (case py_index command ''payload'' of
        Raise e \<Rightarrow> Raise e
      | Return p \<Rightarrow> py_index p field)"

text \<open>Lines 180 to 183: the \<open>if\<close>/\<open>elif\<close> that assigns \<open>success\<close>, which starts as
  False.\<close>

definition dispatch :: "env \<Rightarrow> json \<Rightarrow> json \<Rightarrow> agent \<Rightarrow> bool outcome \<times> agent" where
  "dispatch E command command_type a =
     (if command_type = JStr ''CAPTURE_IMAGE'' then
        (case payload_field command ''camera_id'' of
           Raise e \<Rightarrow> (Raise e, a)
         | Return cam \<Rightarrow> call_capture_image E cam a)
      else if command_type = JStr ''ANALYZE_SNOW_DEPTH'' then
        (case payload_field command ''camera_id'' of
           Raise e \<Rightarrow> (Raise e, a)
         | Return cam \<Rightarrow>
             (case payload_field command ''virtual_sensor_id'' of
                Raise e \<Rightarrow> (Raise e, a)
              | Return vs \<Rightarrow> analyze_snow_depth cam vs a))
      else (Return False, a))"

text \<open>The first line prints \<^verbatim>\<open>command['command_type']\<close> and \<^verbatim>\<open>command['id']\<close> before
  the \<open>try\<close>.\<close>

definition execute_command :: "env \<Rightarrow> json \<Rightarrow> agent \<Rightarrow> unit outcome \<times> agent" where
  "execute_command E command a =
     (case py_index command ''command_type'' of
        Raise e \<Rightarrow> (Raise e, a)
      | Return command_type \<Rightarrow>
          (case py_index command ''id'' of
             Raise e \<Rightarrow> (Raise e, a)
           | Return command_id \<Rightarrow>
               (case dispatch E command command_type a of
                  (Return success, a1) \<Rightarrow>
                    update_command_status E command_id
                      (if success then ''completed'' else ''failed'') a1
                | (Raise e, a1) \<Rightarrow> update_command_status E command_id ''failed'' a1)))"

fun execute_all :: "env \<Rightarrow> json list \<Rightarrow> agent \<Rightarrow> unit outcome \<times> agent" where
  "execute_all E [] a = (Return (), a)"
| "execute_all E (command # rest) a =
     (case execute_command E command a of
        (Raise e, a1) \<Rightarrow> (Raise e, a1)
      | (Return u, a1) \<Rightarrow> execute_all E rest a1)"

text \<open>Only a RequestException is caught here; what \<open>execute_command\<close> or the handling
  of the body raises is a KeyError or a TypeError and goes on to the caller.\<close>

definition check_for_commands :: "env \<Rightarrow> agent \<Rightarrow> unit outcome \<times> agent" where
  "check_for_commands E a =
     (if state a \<noteq> ONLINE then (Return (), a)
      else
        (let r = http_get_commands E (io_log a);
             a1 = log_event (HttpGetCommands r) a
         in case r of
              RequestFails \<Rightarrow> (Return (), a1)
            | Response code commands \<Rightarrow>
                if code = 200 \<and> truthy commands then
                  (case py_len commands of
                     Raise e \<Rightarrow> (Raise e, a1)
                   | Return n \<Rightarrow>
                       (case py_iter commands of
                          Raise e \<Rightarrow> (Raise e, a1)
                        | Return cs \<Rightarrow> execute_all E cs a1))
                else (Return (), a1)))"

subsection \<open>start\<close>

definition CONFIG_POLL_INTERVAL :: rat where "CONFIG_POLL_INTERVAL = 60"
definition COMMAND_POLL_INTERVAL :: rat where "COMMAND_POLL_INTERVAL = 5"

text \<open>One turn of \<^verbatim>\<open>while True\<close>, in three parts. Each gives the outcome, the new
  reference time and the agent.\<close>

definition poll_config :: "env \<Rightarrow> rat \<Rightarrow> agent \<Rightarrow> unit outcome \<times> rat \<times> agent" where
  "poll_config E last_config_fetch a =
     (let (t, a1) = time_time E a in
      if t - last_config_fetch \<ge> CONFIG_POLL_INTERVAL then
        (case fetch_config E a1 of
           (Raise e, a2) \<Rightarrow> (Raise e, last_config_fetch, a2)
         | (Return u, a2) \<Rightarrow> (let (t', a3) = time_time E a2 in (Return (), t', a3)))
      else (Return (), last_config_fetch, a1))"

definition poll_commands :: "env \<Rightarrow> rat \<Rightarrow> agent \<Rightarrow> unit outcome \<times> rat \<times> agent" where
  "poll_commands E last_command_check a =
     (let (t, a1) = time_time E a in
      if t - last_command_check \<ge> COMMAND_POLL_INTERVAL then
        (case check_for_commands E a1 of
           (Raise e, a2) \<Rightarrow> (Raise e, last_command_check, a2)
         | (Return u, a2) \<Rightarrow> (let (t', a3) = time_time E a2 in (Return (), t', a3)))
      else (Return (), last_command_check, a1))"

text \<open>The loop never ends by itself, so it is run for a number of turns:
  \<open>Return ()\<close> says it was still going after them, \<open>Raise e\<close> that the exception
  \<open>e\<close> reached \<^verbatim>\<open>except Exception\<close> in \<open>start\<close>, which shuts the agent down.\<close>

fun main_loop :: "env \<Rightarrow> nat \<Rightarrow> rat \<Rightarrow> rat \<Rightarrow> agent \<Rightarrow> unit outcome \<times> agent" where
  "main_loop E 0 last_config_fetch last_command_check a = (Return (), a)"
| "main_loop E (Suc turns) last_config_fetch last_command_check a =
     (case poll_config E last_config_fetch a of
        (Raise e, lcf, a1) \<Rightarrow> (Raise e, a1)
      | (Return u, lcf, a1) \<Rightarrow>
          (case poll_commands E last_command_check a1 of
             (Raise e, lcc, a2) \<Rightarrow> (Raise e, a2)
           | (Return u, lcc, a2) \<Rightarrow>
               (case process_sensors E a2 of
                  (Raise e, a3) \<Rightarrow> (Raise e, a3)
                | (Return u, a3) \<Rightarrow> main_loop E turns lcf lcc a3)))"

definition start :: "env \<Rightarrow> nat \<Rightarrow> agent \<Rightarrow> unit outcome \<times> agent" where
  "start E turns a =
     (case fetch_config E a of
        (Raise e, a1) \<Rightarrow> (Raise e, a1)
      | (Return u, a1) \<Rightarrow>
          (let (last_config_fetch, a2) = time_time E a1;
               (last_command_check, a3) = time_time E a2
           in main_loop E turns last_config_fetch last_command_check a3))"

text \<open>The events a step has added to the log.\<close>

definition emitted :: "agent \<Rightarrow> agent \<Rightarrow> event list" where
  "emitted a a' = drop (length (io_log a)) (io_log a')"

text \<open>Surroundings in which nothing works: the clock stands still, every request
  fails, no driver can be imported, a driver read or a capture raises. The examples
  change the fields they need.\<close>

definition dead_env :: env where
  "dead_env =
     \<lparr>clock = (\<lambda>h. 0), http_get_config = (\<lambda>h. RequestFails),
      http_get_commands = (\<lambda>h. RequestFails),
      http_post_reading = (\<lambda>h p. RequestFails),
      http_post_status = (\<lambda>h c s. RequestFails),
      import_driver = (\<lambda>h n. False),
      driver_read = (\<lambda>h d c. Raise OtherException),
      capture_image = (\<lambda>h c. Raise OtherException)\<rparr>"

text \<open>The server answers 200 with the body \<open>{}\<close>.\<close>

definition empty_body_env :: env where
  "empty_body_env = dead_env\<lparr>http_get_config := (\<lambda>h. Response 200 (JDict []))\<rparr>"

text \<open>An agent that is online with one sensor configured.\<close>

definition configured_agent :: agent where
  "configured_agent =
     Agent_init\<lparr>state := ONLINE,
       config := JDict [(''sensors'', JList [JDict [(''id'', JInt 1)]]), (''cameras'', JList [])]\<rparr>"

definition is_status_report :: "event \<Rightarrow> bool" where
  "is_status_report e = (case e of HttpPostStatus c s r \<Rightarrow> True | _ \<Rightarrow> False)"

text \<open>A command of a kind the agent does not know, and a capture command.\<close>

definition unknown_command :: json where
  "unknown_command =
     JDict [(''id'', JInt 7), (''command_type'', JStr ''REBOOT''), (''payload'', JDict [])]"

definition capture_command :: json where
  "capture_command =
     JDict [(''id'', JInt 8), (''command_type'', JStr ''CAPTURE_IMAGE''),
            (''payload'', JDict [(''camera_id'', JInt 1)])]"

text \<open>The instances that the log says were constructed for a driver key.\<close>

fun instantiation_of :: "py_key \<Rightarrow> event \<Rightarrow> driver option" where
  "instantiation_of k (ImportDriver k' r) = (if k' = k then r else None)"
| "instantiation_of k e = None"

definition instantiations :: "py_key \<Rightarrow> event list \<Rightarrow> driver list" where
  "instantiations k es = List.map_filter (instantiation_of k) es"

text \<open>The cache holds, for every key, exactly what was constructed for it.\<close>

definition cache_matches_log :: "agent \<Rightarrow> bool" where
  "cache_matches_log a =
     (\<forall>k. instantiations k (io_log a) = (case driver_instances a k of None \<Rightarrow> [] | Some d \<Rightarrow> [d]))"

text \<open>A step only adds to the log.\<close>

definition log_grows :: "agent \<Rightarrow> agent \<Rightarrow> bool" where
  "log_grows a a' = (io_log a' = io_log a @ emitted a a')"

text \<open>A step keeps the entries of the driver cache, and keeps the cache in line with
  the log when it was.\<close>

definition cache_step :: "agent \<Rightarrow> agent \<Rightarrow> bool" where
  "cache_step a a' =
     ((cache_matches_log a \<longrightarrow> cache_matches_log a')
      \<and> (\<forall>k d. driver_instances a k = Some d \<longrightarrow> driver_instances a' k = Some d))"

text \<open>A configuration with one distance sensor, and surroundings in which everything
  works: the server sends that configuration and accepts what it is sent, the clock
  advances with every event, the driver \<open>dfrobot_ult\<close> can be imported and reads
  30.0 cm.\<close>

definition lidar_sensor :: json where
  "lidar_sensor =
     JDict [(''id'', JInt 1), (''name'', JStr ''lidar''), (''is_active'', JBool True),
            (''interface'', JStr ''serial''), (''read_frequency'', JInt 10),
            (''parser_config'', JDict [(''driver'', JStr ''dfrobot_ult'')]),
            (''config'', JDict [(''port'', JStr ''/dev/ttyS0'')])]"

definition lidar_config :: json where
  "lidar_config =
     JDict [(''sensors'', JList [lidar_sensor]), (''cameras'', JList []),
            (''global_read_frequency_seconds'', JInt 0)]"

definition lidar_env :: env where
  "lidar_env =
     \<lparr>clock = (\<lambda>h. 1000 + of_nat (length h)),
      http_get_config = (\<lambda>h. Response 200 lidar_config),
      http_get_commands = (\<lambda>h. Response 200 (JList [])),
      http_post_reading = (\<lambda>h p. Response 200 JNull),
      http_post_status = (\<lambda>h c s. Response 200 JNull),
      import_driver = (\<lambda>h n. n = ''dfrobot_ult''),
      driver_read = (\<lambda>h d c. Return (JDict [(''distance_cm'', JFloat 30)])),
      capture_image = (\<lambda>h c. Return True)\<rparr>"

text \<open>The agent after it has fetched that configuration.\<close>

definition lidar_agent :: agent where
  "lidar_agent = Agent_init\<lparr>state := ONLINE, config := lidar_config\<rparr>"

text \<open>A step only adds to the log, and every event it adds satisfies \<open>P\<close>.\<close>

definition emits :: "(event \<Rightarrow> bool) \<Rightarrow> agent \<Rightarrow> agent \<Rightarrow> bool" where
  "emits P a a' = (log_grows a a' \<and> list_all P (emitted a a'))"

text \<open>
  The events that belong to a read of the sensor \<open>sc\<close>: its start line, the write of
  the timestamp under its id, the import of the driver that its \<open>parser_config\<close> names,
  a driver read with its \<open>config\<close>, and the submission of a reading under its id.
\<close>

fun sensor_event :: "json \<Rightarrow> event \<Rightarrow> bool" where
  "sensor_event sc (ReadStarted s) = (s = sc)"
| "sensor_event sc (SetLastRead k t) =
     (case py_index sc ''id'' of Return sid \<Rightarrow> hashable sid = Return k | Raise e \<Rightarrow> False)"
| "sensor_event sc (ImportDriver k res) =
     (case parser_driver sc of Return dn \<Rightarrow> hashable dn = Return k | Raise e \<Rightarrow> False)"
| "sensor_event sc (DriverRead d cfg r) = (py_index sc ''config'' = Return cfg)"
| "sensor_event sc (HttpPostReading p h) =
     (case py_index sc ''id'' of
        Return sid \<Rightarrow> (case py_index p ''value'' of
                         Return v \<Rightarrow> p = JDict [(''sensor'', sid), (''value'', v)]
                       | Raise e \<Rightarrow> False)
      | Raise e \<Rightarrow> False)"
| "sensor_event sc e = False"

text \<open>The entries that \<^verbatim>\<open>self.config.get('sensors', [])\<close> iterates over.\<close>

definition configured_sensors :: "agent \<Rightarrow> json list" where
  "configured_sensors a =
     (case py_get (config a) ''sensors'' (JList []) of
        Raise e \<Rightarrow> []
      | Return ss \<Rightarrow> (case py_iter ss of Raise e \<Rightarrow> [] | Return xs \<Rightarrow> xs))"

definition is_time_read :: "event \<Rightarrow> bool" where
  "is_time_read e = (case e of TimeRead t \<Rightarrow> True | _ \<Rightarrow> False)"

text \<open>The agent of the example with a read of its sensor recorded at time 1000; a
  sensor that is active but virtual; an agent configured with both sensors.\<close>

definition lidar_agent_read :: agent where
  "lidar_agent_read = lidar_agent\<lparr>last_read_times := [KNum 1 \<mapsto> 1000]\<rparr>"

definition virtual_sensor :: json where
  "virtual_sensor =
     JDict [(''id'', JInt 2), (''name'', JStr ''snow''), (''is_active'', JBool True),
            (''interface'', JStr ''virtual''),
            (''parser_config'', JDict [(''driver'', JStr ''dfrobot_ult'')]),
            (''config'', JDict [(''port'', JStr ''/dev/ttyS0'')])]"

definition mixed_agent :: agent where
  "mixed_agent =
     Agent_init\<lparr>state := ONLINE,
       config := JDict [(''sensors'', JList [virtual_sensor, lidar_sensor]),
                        (''cameras'', JList [])]\<rparr>"

text \<open>A response to the configuration request with which \<open>fetch_config\<close> runs through:
  no error status, and a body in which \<open>sensors\<close> and \<open>cameras\<close> can be indexed and
  have a length.\<close>

definition sized :: "json outcome \<Rightarrow> bool" where
  "sized r =
     (case r of
        Raise e \<Rightarrow> False
      | Return v \<Rightarrow> (case py_len v of Raise e \<Rightarrow> False | Return n \<Rightarrow> True))"

definition config_accepted :: "http_result \<Rightarrow> bool" where
  "config_accepted r =
     (case r of
        RequestFails \<Rightarrow> False
      | Response code body \<Rightarrow>
          \<not> raise_for_status code \<and> sized (py_index body ''sensors'')
          \<and> sized (py_index body ''cameras''))"

definition is_config_fetch :: "event \<Rightarrow> bool" where
  "is_config_fetch e = (case e of HttpGetConfig r \<Rightarrow> True | _ \<Rightarrow> False)"

text \<open>A submission of a reading that ended in a RequestException.\<close>

definition failed_submission :: "event \<Rightarrow> bool" where
  "failed_submission e = (case e of HttpPostReading p h \<Rightarrow> request_fails h | _ \<Rightarrow> False)"

text \<open>A step leaves the agent OFFLINE, or it leaves the state as it was and no
  submission has failed in it.\<close>

definition offline_step :: "agent \<Rightarrow> agent \<Rightarrow> bool" where
  "offline_step a a' =
     (log_grows a a'
      \<and> (state a' = OFFLINE
          \<or> (state a' = state a \<and> \<not> list_ex failed_submission (emitted a a'))))"

text \<open>The surroundings of the example, but the server answers every reading with the
  status 500.\<close>

definition post_fails_env :: env where
  "post_fails_env = lidar_env\<lparr>http_post_reading := (\<lambda>h p. Response 500 JNull)\<rparr>"

text \<open>No event of the list is a configuration fetch that was accepted.\<close>

definition no_accepted_fetch :: "event list \<Rightarrow> bool" where
  "no_accepted_fetch es = (\<forall>r. HttpGetConfig r \<in> set es \<longrightarrow> \<not> config_accepted r)"

text \<open>A reading of the clock or a configuration request: no driver, no reading sent,
  no command.\<close>

definition quiet :: "event \<Rightarrow> bool" where
  "quiet e = (is_time_read e \<or> is_config_fetch e)"

text \<open>The agent of the example after a sampling pass in which the submission failed.\<close>

definition offline_agent :: agent where
  "offline_agent = snd (process_sensors post_fails_env lidar_agent)"

text \<open>The key under which the timestamp of a sensor is kept, and the test of line 111
  for a sensor whose id and frequency allow it: \<^verbatim>\<open>now - last_read >= read_frequency\<close>.\<close>

definition sensor_key :: "json \<Rightarrow> py_key option" where
  "sensor_key s =
     (case py_index s ''id'' of
        Raise e \<Rightarrow> None
      | Return sid \<Rightarrow> (case hashable sid of Raise e \<Rightarrow> None | Return k \<Rightarrow> Some k))"

definition is_due :: "agent \<Rightarrow> rat \<Rightarrow> json \<Rightarrow> bool" where
  "is_due a now s =
     (case sensor_key s of
        None \<Rightarrow> False
      | Some k \<Rightarrow>
          (case get_effective_frequency a s of
             Raise e \<Rightarrow> False
           | Return rf \<Rightarrow>
               (case as_number rf of
                  None \<Rightarrow> False
                | Some f \<Rightarrow> now - last_read a k \<ge> f)))"

section \<open>The frame parser of the distance sensor\<close>

lemma scan_buffer_append:
  "scan_buffer (xs @ ys) =
     (case scan_buffer xs of Found d \<Rightarrow> Found d | Rest r \<Rightarrow> scan_buffer (r @ ys))"
  by (induction xs rule: scan_buffer.induct) auto

lemma read_frames_concat:
  "chunks \<noteq> [] \<Longrightarrow>
   read_frames buffer chunks =
     (case scan_buffer (buffer @ concat chunks) of Found d \<Rightarrow> Some d | Rest r \<Rightarrow> None)"
proof (induction chunks arbitrary: buffer)
  case Nil
  then show ?case by simp
next
  case (Cons c cs)
  show ?case
  proof (cases cs)
    case Nil
    then show ?thesis by (simp split: scan_result.splits)
  next
    case (Cons c' cs')
    then have ne: "cs \<noteq> []" by simp
    show ?thesis
      using Cons.IH [OF ne] scan_buffer_append [of "buffer @ c" "concat cs"]
      by (simp split: scan_result.splits)
  qed
qed

lemma scan_example: "scan_buffer [0x01, 0xFF, 0x01, 0x2C, 0x2C] = Found 30"
  by (simp add: checksum_def distance_cm_def distance_mm_def py_round1_def)

text \<open>
  C3. On the bytes 01 FF 01 2C 2C the parser drops the leading 01, finds the checksum
  of FF 01 2C equal to the fourth byte 2C, decodes 300 mm and returns 30.0 cm: this
  holds however the serial port cuts the five bytes into reads, and \<open>read\<close> then returns
  \<open>{'distance_cm': 30.0}\<close> for every configuration that names a port. In general, a
  buffer that starts with FF and whose checksum does not match is scanned again without
  its first byte, and only that byte.
\<close>

theorem dfrobot_frame_parser:
  "scan_buffer [0x01, 0xFF, 0x01, 0x2C, 0x2C] = scan_buffer [0xFF, 0x01, 0x2C, 0x2C]
   \<and> checksum 0xFF 0x01 0x2C = uint (0x2C :: byte)
   \<and> distance_mm 0x01 0x2C = 300
   \<and> scan_buffer [0x01, 0xFF, 0x01, 0x2C, 0x2C] = Found 30
   \<and> (concat chunks = [0x01, 0xFF, 0x01, 0x2C, 0x2C] \<longrightarrow>
        read_frames [] chunks = Some 30
        \<and> (py_get cfg ''port'' JNull = Return port \<and> truthy port \<longrightarrow>
             DfrobotUltDriver_read cfg (Chunks chunks)
               = Return (JDict [(''distance_cm'', JFloat 30)])))
   \<and> (b0 = 0xFF \<and> checksum b0 b1 b2 \<noteq> uint b3 \<longrightarrow>
        scan_buffer (b0 # b1 # b2 # b3 # rest) = scan_buffer (b1 # b2 # b3 # rest))"
proof -
  have ex: "scan_buffer [0x01, 0xFF, 0x01, 0x2C, 0x2C] = Found 30"
    by (rule scan_example)
  have skip: "scan_buffer [0x01, 0xFF, 0x01, 0x2C, 0x2C] = scan_buffer [0xFF, 0x01, 0x2C, 0x2C]"
    by simp
  have ck: "checksum 0xFF 0x01 0x2C = uint (0x2C :: byte)"
    by (simp add: checksum_def)
  have mm: "distance_mm 0x01 0x2C = 300"
    by (simp add: distance_mm_def)
  have frames: "read_frames [] chunks = Some 30"
    if c: "concat chunks = [0x01, 0xFF, 0x01, 0x2C, 0x2C]"
  proof -
    from c have ne: "chunks \<noteq> []" by auto
    show ?thesis
      using read_frames_concat [OF ne, of "[]"] c ex by simp
  qed
  have rd: "DfrobotUltDriver_read cfg (Chunks chunks)
              = Return (JDict [(''distance_cm'', JFloat 30)])"
    if c: "concat chunks = [0x01, 0xFF, 0x01, 0x2C, 0x2C]"
      and p: "py_get cfg ''port'' JNull = Return port" "truthy port"
    using frames [OF c] p by (simp add: DfrobotUltDriver_read_def)
  have resync: "scan_buffer (b0 # b1 # b2 # b3 # rest) = scan_buffer (b1 # b2 # b3 # rest)"
    if "b0 = 0xFF" "checksum b0 b1 b2 \<noteq> uint b3"
    using that by simp
  from ex skip ck mm frames rd resync show ?thesis by blast
qed

theorem dfrobot_frame_parser_witness:
  "concat [ [0x01, 0xFF] :: byte list, [0x01, 0x2C, 0x2C] ] = [0x01, 0xFF, 0x01, 0x2C, 0x2C]
   \<and> read_frames [] [ [0x01, 0xFF], [0x01, 0x2C, 0x2C] ] = Some 30
   \<and> py_get (JDict [(''port'', JStr ''/dev/ttyS0'')]) ''port'' JNull = Return (JStr ''/dev/ttyS0'')
   \<and> truthy (JStr ''/dev/ttyS0'')
   \<and> DfrobotUltDriver_read (JDict [(''port'', JStr ''/dev/ttyS0'')])
        (Chunks [ [0x01, 0xFF], [0x01, 0x2C, 0x2C] ])
        = Return (JDict [(''distance_cm'', JFloat 30)])
   \<and> (0xFF :: byte) = 0xFF \<and> checksum 0xFF 0x01 0x2C \<noteq> uint (0x2D :: byte)
   \<and> scan_buffer [0xFF, 0x01, 0x2C, 0x2D, 0xFF, 0x01, 0x2C, 0x2C]
        = scan_buffer [0x01, 0x2C, 0x2D, 0xFF, 0x01, 0x2C, 0x2C]"
proof -
  have c: "concat [ [0x01, 0xFF] :: byte list, [0x01, 0x2C, 0x2C] ] = [0x01, 0xFF, 0x01, 0x2C, 0x2C]"
    by simp
  have p: "py_get (JDict [(''port'', JStr ''/dev/ttyS0'')]) ''port'' JNull = Return (JStr ''/dev/ttyS0'')"
    by simp
  have t: "truthy (JStr ''/dev/ttyS0'')" by simp
  have k: "checksum 0xFF 0x01 0x2C \<noteq> uint (0x2D :: byte)" by (simp add: checksum_def)
  show ?thesis
    using dfrobot_frame_parser [of "[ [0x01, 0xFF], [0x01, 0x2C, 0x2C] ]"
        "JDict [(''port'', JStr ''/dev/ttyS0'')]" "JStr ''/dev/ttyS0''"
        "0xFF" "0x01" "0x2C" "0x2D" "[0xFF, 0x01, 0x2C, 0x2C]"] c p t k
    by blast
qed

section \<open>Field lemmas\<close>

lemma set_state_simps [simp]:
  "io_log (set_state s a) = io_log a"
  "state (set_state s a) = s"
  "config (set_state s a) = config a"
  "global_read_frequency_seconds (set_state s a) = global_read_frequency_seconds a"
  "driver_instances (set_state s a) = driver_instances a"
  "last_read_times (set_state s a) = last_read_times a"
  by (simp_all add: set_state_def)

lemma log_event_simps [simp]:
  "io_log (log_event e a) = io_log a @ [e]"
  "state (log_event e a) = state a"
  "config (log_event e a) = config a"
  "global_read_frequency_seconds (log_event e a) = global_read_frequency_seconds a"
  "driver_instances (log_event e a) = driver_instances a"
  "last_read_times (log_event e a) = last_read_times a"
  by (simp_all add: log_event_def)

section \<open>Configuration fetch\<close>

lemma fetch_config_fails:
  assumes "request_fails (http_get_config E (io_log a))"
  shows "fetch_config E a =
           (Return (),
            set_state OFFLINE
              (log_event (HttpGetConfig (http_get_config E (io_log a)))
                 (set_state CONFIGURING a)))"
  using assms
  by (simp add: fetch_config_def request_fails_def Let_def split: http_result.splits)

text \<open>
  C1, as the code has it. When the request ends in a RequestException (no connection, a
  timeout, a status from 400 to 599), \<open>fetch_config\<close> returns normally, the state is
  OFFLINE, and the configuration (so also its sensors list), the global frequency, the
  driver cache and the timestamps are what they were. Whenever \<open>fetch_config\<close> raises,
  the request itself had not failed in that way.
\<close>

theorem fetch_config_request_failure:
  "(request_fails (http_get_config E (io_log a)) \<longrightarrow>
     fst (fetch_config E a) = Return ()
     \<and> state (snd (fetch_config E a)) = OFFLINE
     \<and> config (snd (fetch_config E a)) = config a
     \<and> py_get (config (snd (fetch_config E a))) ''sensors'' (JList [])
         = py_get (config a) ''sensors'' (JList [])
     \<and> global_read_frequency_seconds (snd (fetch_config E a))
         = global_read_frequency_seconds a
     \<and> driver_instances (snd (fetch_config E a)) = driver_instances a
     \<and> last_read_times (snd (fetch_config E a)) = last_read_times a)
   \<and> (fst (fetch_config E a) = Raise e \<longrightarrow>
        \<not> request_fails (http_get_config E (io_log a)))"
proof -
  have "\<not> request_fails (http_get_config E (io_log a))" if "fst (fetch_config E a) = Raise e"
    using that fetch_config_fails [of E a] by auto
  then show ?thesis by (auto simp: fetch_config_fails)
qed

theorem fetch_config_request_failure_witness:
  "request_fails (http_get_config dead_env (io_log configured_agent))
   \<and> fst (fetch_config dead_env configured_agent) = Return ()
   \<and> state (snd (fetch_config dead_env configured_agent)) = OFFLINE
   \<and> config (snd (fetch_config dead_env configured_agent)) = config configured_agent
   \<and> fst (fetch_config empty_body_env configured_agent) = Raise KeyError
   \<and> \<not> request_fails (http_get_config empty_body_env (io_log configured_agent))"
proof -
  have f: "request_fails (http_get_config dead_env (io_log configured_agent))"
    by (simp add: dead_env_def request_fails_def)
  have r: "fst (fetch_config empty_body_env configured_agent) = Raise KeyError"
    by (simp add: fetch_config_def empty_body_env_def dead_env_def raise_for_status_def Let_def)
  show ?thesis
    using fetch_config_request_failure [of dead_env configured_agent]
      fetch_config_request_failure [of empty_body_env configured_agent KeyError] f r
    by blast
qed

text \<open>
  C1 as stated does not hold: a 200 response whose body is \<open>{}\<close> replaces the
  configuration, and the KeyError of \<^verbatim>\<open>self.config['sensors']\<close> in the log line reaches
  the caller with the state still CONFIGURING.
\<close>

theorem fetch_config_raises_on_empty_body:
  "fst (fetch_config empty_body_env configured_agent) = Raise KeyError
   \<and> state (snd (fetch_config empty_body_env configured_agent)) = CONFIGURING
   \<and> config (snd (fetch_config empty_body_env configured_agent)) = JDict []
   \<and> config configured_agent
       = JDict [(''sensors'', JList [JDict [(''id'', JInt 1)]]), (''cameras'', JList [])]"
  by (simp add: fetch_config_def empty_body_env_def configured_agent_def Agent_init_def
      dead_env_def raise_for_status_def Let_def)

section \<open>Commands\<close>

lemma emitted_self [simp]: "emitted a a = []"
  by (simp add: emitted_def)

lemma emitted_log_event [simp]: "emitted a (log_event e a) = [e]"
  by (simp add: emitted_def)

lemma emitted_log_event2 [simp]: "emitted a (log_event e' (log_event e a)) = [e, e']"
  by (simp add: emitted_def)

lemma update_command_status_eq:
  "update_command_status E cid st a =
     (Return (), log_event (HttpPostStatus cid st (http_post_status E (io_log a) cid st)) a)"
  by (simp add: update_command_status_def)

lemma dispatch_log:
  "dispatch E command ct a = (r, a1) \<Longrightarrow>
   a1 = a \<or> (\<exists>cam cr. a1 = log_event (CaptureImage cam cr) a)"
  by (auto simp: dispatch_def call_capture_image_def analyze_snow_depth_def Let_def
      split: if_splits outcome.splits)

text \<open>
  C8. A command that has a \<open>command_type\<close> and an \<open>id\<close> is executed without an
  exception reaching the caller, and among the events of the execution there is exactly
  one status report: it is for the command's id and says \<open>completed\<close> or \<open>failed\<close>.
  This holds for every command type, known or not, and whatever the dispatched action
  does; when the dispatch raises, the one report says \<open>failed\<close>.
\<close>

theorem execute_command_reports_once:
  assumes "py_index command ''command_type'' = Return ct"
      and "py_index command ''id'' = Return cid"
  shows "fst (execute_command E command a) = Return ()
         \<and> (\<exists>st r. filter is_status_report (emitted a (snd (execute_command E command a)))
                      = [HttpPostStatus cid st r]
                    \<and> (st = ''completed'' \<or> st = ''failed''))
         \<and> (fst (dispatch E command ct a) = Raise e \<longrightarrow>
              (\<exists>r. filter is_status_report (emitted a (snd (execute_command E command a)))
                      = [HttpPostStatus cid ''failed'' r]))"
proof -
  obtain r a1 where d: "dispatch E command ct a = (r, a1)"
    by (cases "dispatch E command ct a")
  from dispatch_log [OF d] show ?thesis
    using assms d
    by (auto simp: execute_command_def update_command_status_eq is_status_report_def
        split: outcome.splits)
qed

theorem execute_command_reports_once_witness:
  "py_index capture_command ''command_type'' = Return (JStr ''CAPTURE_IMAGE'')
   \<and> py_index capture_command ''id'' = Return (JInt 8)
   \<and> fst (dispatch dead_env capture_command (JStr ''CAPTURE_IMAGE'') configured_agent)
       = Raise OtherException
   \<and> fst (execute_command dead_env capture_command configured_agent) = Return ()
   \<and> (\<exists>r. filter is_status_report
              (emitted configured_agent (snd (execute_command dead_env capture_command configured_agent)))
            = [HttpPostStatus (JInt 8) ''failed'' r])"
proof -
  have t: "py_index capture_command ''command_type'' = Return (JStr ''CAPTURE_IMAGE'')"
    by (simp add: capture_command_def)
  have i: "py_index capture_command ''id'' = Return (JInt 8)"
    by (simp add: capture_command_def)
  have d: "fst (dispatch dead_env capture_command (JStr ''CAPTURE_IMAGE'') configured_agent)
             = Raise OtherException"
    by (simp add: dispatch_def capture_command_def payload_field_def call_capture_image_def
        dead_env_def Let_def)
  show ?thesis
    using execute_command_reports_once [OF t i, of dead_env configured_agent OtherException] t i d
    by blast
qed

text \<open>
  C9. For a command whose \<open>command_type\<close> is neither \<open>CAPTURE_IMAGE\<close> nor
  \<open>ANALYZE_SNOW_DEPTH\<close> the dispatch does nothing and leaves \<open>success\<close> False, and the
  only thing the execution does is to report the status \<open>failed\<close> for the command's id.
\<close>

theorem unknown_command_reported_failed:
  assumes "py_index command ''command_type'' = Return ct"
      and "py_index command ''id'' = Return cid"
      and "ct \<noteq> JStr ''CAPTURE_IMAGE''"
      and "ct \<noteq> JStr ''ANALYZE_SNOW_DEPTH''"
  shows "dispatch E command ct a = (Return False, a)
         \<and> execute_command E command a
             = (Return (),
                log_event (HttpPostStatus cid ''failed''
                             (http_post_status E (io_log a) cid ''failed'')) a)
         \<and> emitted a (snd (execute_command E command a))
             = [HttpPostStatus cid ''failed'' (http_post_status E (io_log a) cid ''failed'')]"
  using assms by (simp add: execute_command_def dispatch_def update_command_status_eq)

theorem unknown_command_reported_failed_witness:
  "py_index unknown_command ''command_type'' = Return (JStr ''REBOOT'')
   \<and> py_index unknown_command ''id'' = Return (JInt 7)
   \<and> JStr ''REBOOT'' \<noteq> JStr ''CAPTURE_IMAGE''
   \<and> JStr ''REBOOT'' \<noteq> JStr ''ANALYZE_SNOW_DEPTH''
   \<and> emitted configured_agent (snd (execute_command dead_env unknown_command configured_agent))
       = [HttpPostStatus (JInt 7) ''failed'' RequestFails]"
proof -
  have t: "py_index unknown_command ''command_type'' = Return (JStr ''REBOOT'')"
    by (simp add: unknown_command_def)
  have i: "py_index unknown_command ''id'' = Return (JInt 7)"
    by (simp add: unknown_command_def)
  have n1: "JStr ''REBOOT'' \<noteq> JStr ''CAPTURE_IMAGE''" by simp
  have n2: "JStr ''REBOOT'' \<noteq> JStr ''ANALYZE_SNOW_DEPTH''" by simp
  have p: "http_post_status dead_env (io_log configured_agent) (JInt 7) ''failed'' = RequestFails"
    by (simp add: dead_env_def)
  show ?thesis
    using unknown_command_reported_failed [OF t i n1 n2, of dead_env configured_agent] t i p
    by simp
qed

section \<open>The driver cache\<close>

lemma instantiations_simps [simp]:
  "instantiations k [] = []"
  "instantiations k (es @ es') = instantiations k es @ instantiations k es'"
  "instantiations k [ImportDriver k' r] = (if k' = k then (case r of None \<Rightarrow> [] | Some d \<Rightarrow> [d]) else [])"
  "instantiations k [TimeRead t] = []"
  "instantiations k [HttpGetConfig h] = []"
  "instantiations k [HttpGetCommands h] = []"
  "instantiations k [HttpPostReading p h] = []"
  "instantiations k [HttpPostStatus c s h] = []"
  "instantiations k [ReadStarted sc] = []"
  "instantiations k [SetLastRead k' t] = []"
  "instantiations k [DriverRead d c rr] = []"
  "instantiations k [CaptureImage c cr] = []"
  by (auto simp: instantiations_def map_filter_def split: option.splits)

lemma cache_matches_logD:
  "cache_matches_log a \<Longrightarrow>
   instantiations k (io_log a) = (case driver_instances a k of None \<Rightarrow> [] | Some d \<Rightarrow> [d])"
  by (simp add: cache_matches_log_def)

lemma load_driver_hit:
  "hashable dn = Return k \<Longrightarrow> driver_instances a k = Some d \<Longrightarrow>
   load_driver E dn a = (Return (Some d), a)"
  by (simp add: load_driver_def)

lemma load_driver_cases:
  assumes "load_driver E dn a = (r, a')"
  shows "(\<exists>e. r = Raise e \<and> a' = a \<and> hashable dn = Raise e)
       \<or> (\<exists>k d. hashable dn = Return k \<and> driver_instances a k = Some d \<and> r = Return (Some d) \<and> a' = a)
       \<or> (\<exists>k. hashable dn = Return k \<and> driver_instances a k = None \<and> r = Return None
              \<and> a' = log_event (ImportDriver k None) a)
       \<or> (\<exists>n d. dn = JStr n \<and> driver_instances a (KStr n) = None \<and> import_driver E (io_log a) n
              \<and> d = Driver n (length (io_log a)) \<and> r = Return (Some d)
              \<and> a' = log_event (ImportDriver (KStr n) (Some d)) (a\<lparr>driver_instances := (driver_instances a)(KStr n \<mapsto> d)\<rparr>))"
  using assms
  by (auto simp: load_driver_def Let_def split: outcome.splits option.splits json.splits if_splits)

lemma load_driver_inv:
  assumes l: "load_driver E dn a = (r, a')" and c: "cache_matches_log a"
  shows "cache_matches_log a'"
  unfolding cache_matches_log_def
proof
  fix k
  show "instantiations k (io_log a') = (case driver_instances a' k of None \<Rightarrow> [] | Some d \<Rightarrow> [d])"
    using load_driver_cases [OF l] cache_matches_logD [OF c, of k]
    by (auto split: option.splits if_splits)
qed

lemma cache_step_refl [simp]: "cache_step a a"
  by (simp add: cache_step_def)

lemma cache_step_trans: "cache_step a b \<Longrightarrow> cache_step b c \<Longrightarrow> cache_step a c"
  by (simp add: cache_step_def)

lemma cache_step_same:
  assumes "driver_instances b = driver_instances a"
      and "\<And>k. instantiations k (io_log b) = instantiations k (io_log a)"
  shows "cache_step a b"
  using assms by (simp add: cache_step_def cache_matches_log_def)

lemma cache_step_log_event:
  assumes "cache_step a b" "\<And>k. instantiations k [e] = []"
  shows "cache_step a (log_event e b)"
  by (rule cache_step_trans [OF assms(1)], rule cache_step_same) (simp_all add: assms(2))

lemma cache_step_set_state [simp]: "cache_step a (set_state s b) = cache_step a b"
  by (simp add: cache_step_def cache_matches_log_def)

lemma cache_step_fields [simp]:
  "cache_step a (b\<lparr>state := s\<rparr>) = cache_step a b"
  "cache_step a (b\<lparr>config := c\<rparr>) = cache_step a b"
  "cache_step a (b\<lparr>global_read_frequency_seconds := g\<rparr>) = cache_step a b"
  "cache_step a (b\<lparr>last_read_times := l\<rparr>) = cache_step a b"
  by (simp_all add: cache_step_def cache_matches_log_def)

lemma cache_step_load_driver:
  assumes "load_driver E dn b = (r, c)" "cache_step a b"
  shows "cache_step a c"
proof (rule cache_step_trans [OF assms(2)])
  show "cache_step b c"
    unfolding cache_step_def
    using load_driver_inv [OF assms(1)] load_driver_cases [OF assms(1)] by auto
qed

lemma cache_step_send_reading:
  assumes "send_reading E p b = (r, c)" "cache_step a b"
  shows "cache_step a c"
  using assms
  by (auto simp: send_reading_def Let_def intro!: cache_step_log_event split: http_result.splits if_splits)

lemma cache_step_try_read:
  assumes "try_read E sc sid b = (r, c)" "cache_step a b"
  shows "cache_step a c"
  using assms
  by (auto simp: try_read_def Let_def intro!: cache_step_log_event
      dest: cache_step_load_driver cache_step_send_reading
      split: outcome.splits option.splits prod.splits if_splits)

lemma cache_step_read_sensor:
  assumes "read_sensor E now sc b = (r, c)" "cache_step a b"
  shows "cache_step a c"
  using assms
  by (auto simp: read_sensor_def begin_read_def Let_def
      dest!: cache_step_try_read [where a = a] intro!: cache_step_log_event
      split: outcome.splits option.splits prod.splits if_splits)


lemma cache_step_sensor_loop:
  assumes "sensor_loop E now ss b = (r, c)" "cache_step a b"
  shows "cache_step a c"
  using assms
proof (induction ss arbitrary: b)
  case Nil
  then show ?case by simp
next
  case (Cons s ss)
  obtain r1 b1 where rs: "read_sensor E now s b = (r1, b1)" by (cases "read_sensor E now s b")
  have s1: "cache_step a b1" by (rule cache_step_read_sensor [OF rs Cons.prems(2)])
  show ?case
  proof (cases r1)
    case (Return u)
    with Cons.prems(1) rs have "sensor_loop E now ss b1 = (r, c)" by simp
    then show ?thesis by (rule Cons.IH [OF _ s1])
  next
    case (Raise e)
    with Cons.prems(1) rs s1 show ?thesis by simp
  qed
qed

lemma cache_step_time_time:
  assumes "time_time E b = (t, c)" "cache_step a b"
  shows "cache_step a c"
  using assms by (auto simp: time_time_def Let_def intro!: cache_step_log_event)

lemma cache_step_process_sensors:
  assumes "process_sensors E b = (r, c)" "cache_step a b"
  shows "cache_step a c"
  using assms
  by (auto simp: process_sensors_def Let_def
      dest: cache_step_time_time [where a = a] cache_step_sensor_loop [where a = a]
      split: outcome.splits prod.splits if_splits)

lemma cache_step_fetch_config:
  assumes "fetch_config E b = (r, c)" "cache_step a b"
  shows "cache_step a c"
  using assms
  by (auto simp: fetch_config_def Let_def intro!: cache_step_log_event
      split: outcome.splits http_result.splits if_splits)

lemma cache_step_update_command_status:
  assumes "update_command_status E cid st b = (r, c)" "cache_step a b"
  shows "cache_step a c"
  using assms by (auto simp: update_command_status_def Let_def intro!: cache_step_log_event)

lemma cache_step_dispatch:
  assumes "dispatch E cmd ct b = (r, c)" "cache_step a b"
  shows "cache_step a c"
  using assms
  by (auto simp: dispatch_def call_capture_image_def analyze_snow_depth_def Let_def
      intro!: cache_step_log_event split: outcome.splits if_splits)

lemma cache_step_execute_command:
  assumes "execute_command E cmd b = (r, c)" "cache_step a b"
  shows "cache_step a c"
  using assms
  by (auto simp: execute_command_def
      dest: cache_step_dispatch [where a = a] cache_step_update_command_status [where a = a]
      split: outcome.splits prod.splits)

lemma cache_step_execute_all:
  assumes "execute_all E cs b = (r, c)" "cache_step a b"
  shows "cache_step a c"
  using assms
proof (induction cs arbitrary: b)
  case Nil
  then show ?case by simp
next
  case (Cons x cs)
  obtain r1 b1 where ex: "execute_command E x b = (r1, b1)" by (cases "execute_command E x b")
  have s1: "cache_step a b1" by (rule cache_step_execute_command [OF ex Cons.prems(2)])
  show ?case
  proof (cases r1)
    case (Return u)
    with Cons.prems(1) ex have "execute_all E cs b1 = (r, c)" by simp
    then show ?thesis by (rule Cons.IH [OF _ s1])
  next
    case (Raise e)
    with Cons.prems(1) ex s1 show ?thesis by simp
  qed
qed

lemma cache_step_check_for_commands:
  assumes "check_for_commands E b = (r, c)" "cache_step a b"
  shows "cache_step a c"
  using assms
  by (auto simp: check_for_commands_def Let_def intro!: cache_step_log_event
      dest!: cache_step_execute_all [where a = a]
      split: outcome.splits http_result.splits if_splits)

lemma cache_step_poll_config:
  assumes "poll_config E lcf b = (r, lcf', c)" "cache_step a b"
  shows "cache_step a c"
  using assms
  by (auto simp: poll_config_def Let_def
      dest!: cache_step_time_time [where a = a] cache_step_fetch_config [where a = a]
      split: outcome.splits prod.splits if_splits)


lemma cache_step_poll_commands:
  assumes "poll_commands E lcc b = (r, lcc', c)" "cache_step a b"
  shows "cache_step a c"
  using assms
  by (auto simp: poll_commands_def Let_def
      dest!: cache_step_time_time [where a = a] cache_step_check_for_commands [where a = a]
      split: outcome.splits prod.splits if_splits)

lemma cache_step_main_loop:
  assumes "main_loop E turns lcf lcc b = (r, c)" "cache_step a b"
  shows "cache_step a c"
  using assms
proof (induction turns arbitrary: lcf lcc b)
  case 0
  then show ?case by simp
next
  case (Suc n)
  obtain r1 l1 b1 where p1: "poll_config E lcf b = (r1, l1, b1)"
    by (cases "poll_config E lcf b")
  obtain r2 l2 b2 where p2: "poll_commands E lcc b1 = (r2, l2, b2)"
    by (cases "poll_commands E lcc b1")
  obtain r3 b3 where p3: "process_sensors E b2 = (r3, b3)"
    by (cases "process_sensors E b2")
  have s1: "cache_step a b1" by (rule cache_step_poll_config [OF p1 Suc.prems(2)])
  have s2: "cache_step a b2" by (rule cache_step_poll_commands [OF p2 s1])
  have s3: "cache_step a b3" by (rule cache_step_process_sensors [OF p3 s2])
  show ?case
  proof (cases "r1 = Return () \<and> r2 = Return () \<and> r3 = Return ()")
    case True
    with Suc.prems(1) p1 p2 p3 have "main_loop E n l1 l2 b3 = (r, c)" by simp
    then show ?thesis by (rule Suc.IH [OF _ s3])
  next
    case False
    with Suc.prems(1) p1 p2 p3 s1 s2 s3 show ?thesis
      by (auto split: outcome.splits)
  qed
qed

lemma cache_step_start:
  assumes "start E turns b = (r, c)" "cache_step a b"
  shows "cache_step a c"
  using assms
  by (auto simp: start_def Let_def
      dest!: cache_step_fetch_config [where a = a] cache_step_time_time [where a = a]
         cache_step_main_loop [where a = a]
      split: outcome.splits prod.splits)

section \<open>Growth of the log\<close>

lemma log_grows_refl [simp]: "log_grows a a"
  by (simp add: log_grows_def emitted_def)

lemma log_growsI: "io_log b = io_log a @ es \<Longrightarrow> log_grows a b"
  by (simp add: log_grows_def emitted_def)

lemma log_growsD: "log_grows a b \<Longrightarrow> io_log b = io_log a @ emitted a b"
  by (simp add: log_grows_def)

lemma emitted_eq: "io_log b = io_log a @ es \<Longrightarrow> emitted a b = es"
  by (simp add: emitted_def)

lemma log_grows_trans: "log_grows a b \<Longrightarrow> log_grows b c \<Longrightarrow> log_grows a c"
  by (metis append.assoc log_growsD log_growsI)

lemma emitted_trans: "log_grows a b \<Longrightarrow> log_grows b c \<Longrightarrow> emitted a c = emitted a b @ emitted b c"
  by (metis append.assoc log_growsD emitted_eq)

lemma log_grows_log_event: "log_grows a b \<Longrightarrow> log_grows a (log_event e b)"
  by (metis append.assoc log_growsD log_growsI log_event_simps(1))

lemma log_grows_fields [simp]:
  "log_grows a (set_state s b) = log_grows a b"
  "log_grows a (b\<lparr>state := s\<rparr>) = log_grows a b"
  "log_grows a (b\<lparr>config := c\<rparr>) = log_grows a b"
  "log_grows a (b\<lparr>global_read_frequency_seconds := g\<rparr>) = log_grows a b"
  "log_grows a (b\<lparr>last_read_times := l\<rparr>) = log_grows a b"
  "log_grows a (b\<lparr>driver_instances := dr\<rparr>) = log_grows a b"
  by (simp_all add: log_grows_def emitted_def)

lemma log_grows_load_driver:
  assumes "load_driver E dn b = (r, c)" "log_grows a b"
  shows "log_grows a c"
  using load_driver_cases [OF assms(1)] assms(2)
  by (auto intro!: log_grows_log_event)

lemma log_grows_send_reading:
  assumes "send_reading E p b = (r, c)" "log_grows a b"
  shows "log_grows a c"
  using assms
  by (auto simp: send_reading_def Let_def intro!: log_grows_log_event split: http_result.splits if_splits)

lemma log_grows_try_read:
  assumes "try_read E sc sid b = (r, c)" "log_grows a b"
  shows "log_grows a c"
  using assms
  by (auto simp: try_read_def Let_def intro!: log_grows_log_event
      dest: log_grows_load_driver log_grows_send_reading
      split: outcome.splits option.splits prod.splits if_splits)

lemma load_driver_miss:
  assumes "hashable dn = Return k" "driver_instances a k = None"
  shows "\<exists>res. emitted a (snd (load_driver E dn a)) = [ImportDriver k res]
          \<and> fst (load_driver E dn a) = Return res
          \<and> (\<forall>n. dn = JStr n \<longrightarrow> res = (if import_driver E (io_log a) n then Some (Driver n (length (io_log a))) else None))"
  using assms
  by (auto simp: load_driver_def Let_def emitted_def split: json.splits)

lemma try_read_imports_first:
  assumes p: "parser_driver sc = Return dn" and h: "hashable dn = Return k"
      and c: "driver_instances a k = None"
  shows "\<exists>res. take 1 (emitted a (snd (try_read E sc sid a))) = [ImportDriver k res]"
proof -
  obtain rl a1 where l: "load_driver E dn a = (rl, a1)" by (cases "load_driver E dn a")
  from load_driver_miss [OF h c, of E] l obtain res where
    e1: "emitted a a1 = [ImportDriver k res]" by auto
  have g1: "log_grows a a1" by (rule log_grows_load_driver [OF l]) simp
  obtain r a2 where t: "try_read E sc sid a = (r, a2)" by (cases "try_read E sc sid a")
  have "log_grows a1 a2"
    using t p l
    by (auto simp: try_read_def Let_def intro!: log_grows_log_event
        dest!: log_grows_send_reading [where a = a1]
        split: outcome.splits option.splits if_splits)
  from emitted_trans [OF g1 this] e1 t show ?thesis by simp
qed

lemmas eval_defs = start_def fetch_config_def time_time_def poll_config_def poll_commands_def
  process_sensors_def check_for_commands_def read_sensor_def last_read_def begin_read_def
  try_read_def
  load_driver_def
  send_reading_def get_effective_frequency_def parser_driver_def is_eligible_def
  py_gt0_def py_ge_def raise_for_status_def set_state_def log_event_def
  CONFIG_POLL_INTERVAL_def COMMAND_POLL_INTERVAL_def Let_def

lemmas example_defs = lidar_env_def lidar_config_def lidar_sensor_def lidar_agent_def
  dead_env_def Agent_init_def

section \<open>The driver registry\<close>

lemma load_driver_again:
  assumes "fst (load_driver E dn a) = Return (Some d)"
  shows "\<exists>k. hashable dn = Return k \<and> driver_instances (snd (load_driver E dn a)) k = Some d"
proof -
  obtain r a1 where l: "load_driver E dn a = (r, a1)" by (cases "load_driver E dn a")
  with assms have r: "r = Return (Some d)" by simp
  from load_driver_cases [OF l] r show ?thesis using l by auto
qed

lemma cache_step_kept:
  "cache_step a b \<Longrightarrow> driver_instances a k = Some d \<Longrightarrow> driver_instances b k = Some d"
  by (simp add: cache_step_def)

lemma cache_matches_log_init: "cache_matches_log Agent_init"
  by (simp add: cache_matches_log_def Agent_init_def)

text \<open>
  C6. Once \<open>load_driver\<close> has returned an instance for a name, a later call with the same
  name returns that same object and does nothing else (the agent, its log included, is
  unchanged, so nothing is constructed): this holds right away and after any number of
  turns of the main loop, whatever the surroundings do. In every run of \<open>start\<close> from a
  fresh agent the cache agrees with the log, and for every driver key the log has at
  most one successful construction.
\<close>

theorem driver_registry_single_instance:
  "(fst (load_driver E dn a) = Return (Some d) \<longrightarrow>
      load_driver E'' dn (snd (main_loop E' turns lcf lcc (snd (load_driver E dn a))))
        = (Return (Some d), snd (main_loop E' turns lcf lcc (snd (load_driver E dn a)))))
   \<and> cache_matches_log (snd (start E turns Agent_init))
   \<and> (\<forall>k. length (instantiations k (io_log (snd (start E turns Agent_init)))) \<le> 1)"
proof -
  have 1: "load_driver E'' dn (snd (main_loop E' turns lcf lcc (snd (load_driver E dn a))))
        = (Return (Some d), snd (main_loop E' turns lcf lcc (snd (load_driver E dn a))))"
    if h: "fst (load_driver E dn a) = Return (Some d)"
  proof -
    from load_driver_again [OF h] obtain k where
      k: "hashable dn = Return k" "driver_instances (snd (load_driver E dn a)) k = Some d" by blast
    obtain r a2 where m: "main_loop E' turns lcf lcc (snd (load_driver E dn a)) = (r, a2)"
      by (cases "main_loop E' turns lcf lcc (snd (load_driver E dn a))")
    have "cache_step (snd (load_driver E dn a)) a2"
      by (rule cache_step_main_loop [OF m]) simp
    then have "driver_instances a2 k = Some d" using k(2) by (rule cache_step_kept)
    then show ?thesis using m k(1) by (simp add: load_driver_hit)
  qed
  obtain r a3 where s: "start E turns Agent_init = (r, a3)" by (cases "start E turns Agent_init")
  have "cache_step Agent_init a3" by (rule cache_step_start [OF s]) simp
  then have 2: "cache_matches_log a3" using cache_matches_log_init by (simp add: cache_step_def)
  have 3: "length (instantiations k (io_log a3)) \<le> 1" for k
    using cache_matches_logD [OF 2, of k] by (simp split: option.splits)
  from 1 2 3 s show ?thesis by simp
qed

theorem driver_registry_single_instance_witness:
  "fst (load_driver lidar_env (JStr ''dfrobot_ult'') Agent_init)
     = Return (Some (Driver ''dfrobot_ult'' 0))
   \<and> load_driver dead_env (JStr ''dfrobot_ult'')
        (snd (main_loop lidar_env (Suc 0) 0 0
               (snd (load_driver lidar_env (JStr ''dfrobot_ult'') Agent_init))))
       = (Return (Some (Driver ''dfrobot_ult'' 0)),
          snd (main_loop lidar_env (Suc 0) 0 0
                 (snd (load_driver lidar_env (JStr ''dfrobot_ult'') Agent_init))))"
proof -
  have h: "fst (load_driver lidar_env (JStr ''dfrobot_ult'') Agent_init)
             = Return (Some (Driver ''dfrobot_ult'' 0))"
    by (simp add: load_driver_def lidar_env_def Agent_init_def Let_def)
  show ?thesis
    using driver_registry_single_instance [where E = lidar_env and dn = "JStr ''dfrobot_ult''"
        and a = Agent_init and d = "Driver ''dfrobot_ult'' 0" and E'' = dead_env
        and E' = lidar_env and turns = "Suc 0" and lcf = 0 and lcc = 0] h
    by blast
qed

text \<open>
  C10. When \<open>load_driver\<close> returns None, the cache is what it was: the name has no entry,
  the one event of the call is the failed import, and the next call for the name, in
  whatever surroundings, imports again and returns what that import gives; so does the
  next read of a sensor whose \<open>parser_config\<close> names the driver, whose first event is the
  import. \<open>load_driver\<close> keeps the cache in line with the log, and in every run of
  \<open>start\<close> from a fresh agent each entry of the cache is an instance that the log shows
  as constructed for that key.
\<close>

theorem failed_load_not_cached:
  "(fst (load_driver E dn a) = Return None \<longrightarrow>
      driver_instances (snd (load_driver E dn a)) = driver_instances a
      \<and> (\<exists>k. hashable dn = Return k
             \<and> driver_instances (snd (load_driver E dn a)) k = None
             \<and> emitted a (snd (load_driver E dn a)) = [ImportDriver k None]
             \<and> (\<exists>res. emitted (snd (load_driver E dn a))
                         (snd (load_driver E' dn (snd (load_driver E dn a))))
                       = [ImportDriver k res]
                     \<and> fst (load_driver E' dn (snd (load_driver E dn a))) = Return res)
             \<and> (parser_driver sc = Return dn \<longrightarrow>
                  (\<exists>res. take 1 (emitted (snd (load_driver E dn a))
                                   (snd (try_read E' sc sid (snd (load_driver E dn a)))))
                         = [ImportDriver k res]))))
   \<and> (cache_matches_log a \<longrightarrow> cache_matches_log (snd (load_driver E dn a)))
   \<and> (\<forall>k d. driver_instances (snd (start E'' turns Agent_init)) k = Some d \<longrightarrow>
         ImportDriver k (Some d) \<in> set (io_log (snd (start E'' turns Agent_init))))"
proof -
  obtain r a1 where l: "load_driver E dn a = (r, a1)" by (cases "load_driver E dn a")
  have 1: "driver_instances a1 = driver_instances a
      \<and> (\<exists>k. hashable dn = Return k
             \<and> driver_instances a1 k = None
             \<and> emitted a a1 = [ImportDriver k None]
             \<and> (\<exists>res. emitted a1 (snd (load_driver E' dn a1)) = [ImportDriver k res]
                     \<and> fst (load_driver E' dn a1) = Return res)
             \<and> (parser_driver sc = Return dn \<longrightarrow>
                  (\<exists>res. take 1 (emitted a1 (snd (try_read E' sc sid a1))) = [ImportDriver k res])))"
    if "r = Return None"
  proof -
    from load_driver_cases [OF l] that obtain k where
      k: "hashable dn = Return k" "driver_instances a k = None" "a1 = log_event (ImportDriver k None) a"
      by auto
    have c1: "driver_instances a1 k = None" using k by simp
    from load_driver_miss [OF k(1) c1, of E'] try_read_imports_first [OF _ k(1) c1, of sc E' sid]
    show ?thesis using k by auto
  qed
  have 2: "cache_matches_log a1" if "cache_matches_log a"
    using load_driver_inv [OF l that] .
  obtain rs a3 where s: "start E'' turns Agent_init = (rs, a3)" by (cases "start E'' turns Agent_init")
  have "cache_step Agent_init a3" by (rule cache_step_start [OF s]) simp
  then have m: "cache_matches_log a3"
    by (simp add: cache_step_def cache_matches_log_def Agent_init_def)
  have 3: "ImportDriver k (Some d) \<in> set (io_log a3)" if "driver_instances a3 k = Some d" for k d
  proof -
    from cache_matches_logD [OF m, of k] that have "instantiations k (io_log a3) = [d]" by simp
    then have "d \<in> set (instantiations k (io_log a3))" by simp
    then obtain e where e: "e \<in> set (io_log a3)" "instantiation_of k e = Some d"
      by (auto simp: instantiations_def map_filter_def)
    from e(2) have "e = ImportDriver k (Some d)"
      by (cases e) (simp_all split: if_splits)
    with e(1) show ?thesis by simp
  qed
  show ?thesis unfolding l s fst_conv snd_conv using 1 2 3 by blast
qed

theorem failed_load_not_cached_witness:
  "fst (load_driver dead_env (JStr ''dfrobot_ult'') Agent_init) = Return None
   \<and> driver_instances (snd (load_driver dead_env (JStr ''dfrobot_ult'') Agent_init))
       = driver_instances Agent_init
   \<and> parser_driver lidar_sensor = Return (JStr ''dfrobot_ult'')
   \<and> cache_matches_log Agent_init
   \<and> cache_matches_log (snd (load_driver dead_env (JStr ''dfrobot_ult'') Agent_init))
   \<and> driver_instances (snd (start lidar_env (Suc 0) Agent_init)) (KStr ''dfrobot_ult'')
       = Some (Driver ''dfrobot_ult'' 8)
   \<and> ImportDriver (KStr ''dfrobot_ult'') (Some (Driver ''dfrobot_ult'' 8))
       \<in> set (io_log (snd (start lidar_env (Suc 0) Agent_init)))"
proof -
  have h: "fst (load_driver dead_env (JStr ''dfrobot_ult'') Agent_init) = Return None"
    by (simp add: load_driver_def dead_env_def Agent_init_def)
  have p: "parser_driver lidar_sensor = Return (JStr ''dfrobot_ult'')"
    by (simp add: parser_driver_def lidar_sensor_def)
  have c: "cache_matches_log Agent_init"
    by (rule cache_matches_log_init)
  have s: "driver_instances (snd (start lidar_env (Suc 0) Agent_init)) (KStr ''dfrobot_ult'')
             = Some (Driver ''dfrobot_ult'' 8)"
    by (simp add: eval_defs example_defs)
  show ?thesis
    using failed_load_not_cached [where E = dead_env and dn = "JStr ''dfrobot_ult''"
        and a = Agent_init and E' = dead_env and sc = lidar_sensor and sid = "JInt 1"
        and E'' = lidar_env and turns = "Suc 0"] h p c s
    by blast
qed

section \<open>One sensor in a sampling pass\<close>

lemma sensor_loop_append:
  "sensor_loop E now (pre @ post) a =
     (case sensor_loop E now pre a of
        (Raise e, a1) \<Rightarrow> (Raise e, a1)
      | (Return u, a1) \<Rightarrow> sensor_loop E now post a1)"
  by (induction pre arbitrary: a) (auto split: prod.splits outcome.splits)

lemma emitted_begin_read [simp]:
  "emitted a (begin_read now sc k a) = [ReadStarted sc, SetLastRead k now]"
  by (simp add: begin_read_def emitted_def Let_def)

lemma log_grows_begin_read [simp]: "log_grows a (begin_read now sc k a)"
  by (rule log_growsI [of _ _ "[ReadStarted sc, SetLastRead k now]"]) (simp add: begin_read_def Let_def)

lemma read_sensor_not_due:
  assumes "py_index sc ''id'' = Return sid" "hashable sid = Return k"
      and "get_effective_frequency a sc = Return rf" "as_number rf = Some f"
      and "\<not> now - last_read a k \<ge> f"
  shows "read_sensor E now sc a = (Return (), a)"
  using assms by (simp add: read_sensor_def py_ge_def)

lemma read_sensor_due:
  assumes "py_index sc ''id'' = Return sid" "hashable sid = Return k"
      and "get_effective_frequency a sc = Return rf" "as_number rf = Some f"
      and "py_index sc ''name'' = Return nm"
      and "now - last_read a k \<ge> f"
  shows "snd (read_sensor E now sc a) = snd (try_read E sc sid (begin_read now sc k a))"
  using assms
  by (simp add: read_sensor_def py_ge_def split: prod.splits outcome.splits)

lemma emitted_read_sensor_due:
  assumes "py_index sc ''id'' = Return sid" "hashable sid = Return k"
      and "get_effective_frequency a sc = Return rf" "as_number rf = Some f"
      and "py_index sc ''name'' = Return nm"
      and "now - last_read a k \<ge> f"
  shows "emitted a (snd (read_sensor E now sc a))
           = [ReadStarted sc, SetLastRead k now]
             @ emitted (begin_read now sc k a) (snd (try_read E sc sid (begin_read now sc k a)))"
proof -
  obtain r a3 where t: "try_read E sc sid (begin_read now sc k a) = (r, a3)"
    by (cases "try_read E sc sid (begin_read now sc k a)")
  have g: "log_grows (begin_read now sc k a) a3"
    by (rule log_grows_try_read [OF t]) simp
  from emitted_trans [OF log_grows_begin_read g]
  show ?thesis using read_sensor_due [OF assms, of E] t by simp
qed

section \<open>The events of a sampling pass\<close>

lemma emits_refl [simp]: "emits P a a"
  by (simp add: emits_def)

lemma emits_trans:
  assumes "emits P a b" "emits P b c"
  shows "emits P a c"
proof -
  from assms have g: "log_grows a b" "log_grows b c" by (simp_all add: emits_def)
  have "emitted a c = emitted a b @ emitted b c" by (rule emitted_trans [OF g])
  moreover have "log_grows a c" by (rule log_grows_trans [OF g])
  ultimately show ?thesis using assms by (simp add: emits_def)
qed

lemma emits_mono: "emits P a b \<Longrightarrow> (\<And>e. P e \<Longrightarrow> Q e) \<Longrightarrow> emits Q a b"
  by (auto simp: emits_def list_all_iff)

lemma emits_single: "P e \<Longrightarrow> emits P b (log_event e b)"
  by (simp add: emits_def log_grows_log_event)

lemma emits_log_event: "emits P a b \<Longrightarrow> P e \<Longrightarrow> emits P a (log_event e b)"
  by (rule emits_trans [OF _ emits_single])

lemma emits_fields [simp]:
  "emits P a (set_state s b) = emits P a b"
  "emits P a (b\<lparr>state := s\<rparr>) = emits P a b"
  "emits P a (b\<lparr>config := c\<rparr>) = emits P a b"
  "emits P a (b\<lparr>global_read_frequency_seconds := g\<rparr>) = emits P a b"
  "emits P a (b\<lparr>last_read_times := l\<rparr>) = emits P a b"
  "emits P a (b\<lparr>driver_instances := dr\<rparr>) = emits P a b"
  by (simp_all add: emits_def emitted_def)

lemma emitsD: "emits P a b \<Longrightarrow> e \<in> set (emitted a b) \<Longrightarrow> P e"
  by (simp add: emits_def list_all_iff)

lemma emits_log_grows: "emits P a b \<Longrightarrow> log_grows a b"
  by (simp add: emits_def)

lemma emits_load_driver:
  assumes "load_driver E dn b = (r, c)" "emits P a b"
      and "\<And>k res. hashable dn = Return k \<Longrightarrow> P (ImportDriver k res)"
  shows "emits P a c"
  using load_driver_cases [OF assms(1)] assms(2,3)
  by (auto intro!: emits_log_event)

lemma emits_send_reading:
  assumes "send_reading E p b = (r, c)" "emits P a b" "\<And>h. P (HttpPostReading p h)"
  shows "emits P a c"
  using assms
  by (auto simp: send_reading_def Let_def intro!: emits_log_event split: http_result.splits if_splits)

lemma emits_try_read:
  assumes "try_read E sc sid b = (r, c)" "emits (sensor_event sc) a b"
      and "py_index sc ''id'' = Return sid"
  shows "emits (sensor_event sc) a c"
  using assms
  by (auto simp: try_read_def Let_def intro!: emits_log_event
      dest!: emits_load_driver [where a = a and P = "sensor_event sc"]
             emits_send_reading [where a = a and P = "sensor_event sc"]
      split: outcome.splits option.splits prod.splits if_splits)

lemma emits_begin_read:
  assumes "emits (sensor_event sc) a b" "py_index sc ''id'' = Return sid" "hashable sid = Return k"
  shows "emits (sensor_event sc) a (begin_read now sc k b)"
  using assms by (auto simp: begin_read_def Let_def intro!: emits_log_event)

lemma emits_read_sensor:
  assumes "read_sensor E now sc b = (r, c)" "emits (sensor_event sc) a b"
  shows "emits (sensor_event sc) a c"
  using assms
  by (auto simp: read_sensor_def
      dest!: emits_try_read [where a = a] intro!: emits_begin_read
      split: outcome.splits prod.splits if_splits)


lemma load_driver_keeps:
  assumes "load_driver E dn b = (r, c)"
  shows "last_read_times c = last_read_times b
         \<and> global_read_frequency_seconds c = global_read_frequency_seconds b
         \<and> config c = config b \<and> state c = state b"
  using load_driver_cases [OF assms] by auto

lemma send_reading_keeps:
  assumes "send_reading E p b = (r, c)"
  shows "last_read_times c = last_read_times b
         \<and> global_read_frequency_seconds c = global_read_frequency_seconds b
         \<and> config c = config b"
  using assms
  by (auto simp: send_reading_def Let_def split: http_result.splits if_splits)

lemma try_read_keeps:
  assumes "try_read E sc sid b = (r, c)"
  shows "last_read_times c = last_read_times b
         \<and> global_read_frequency_seconds c = global_read_frequency_seconds b
         \<and> config c = config b"
  using assms
  by (auto simp: try_read_def Let_def
      dest!: load_driver_keeps send_reading_keeps
      split: outcome.splits option.splits prod.splits if_splits)

lemma begin_read_fields [simp]:
  "last_read_times (begin_read now sc k b) = (last_read_times b)(k \<mapsto> now)"
  "global_read_frequency_seconds (begin_read now sc k b) = global_read_frequency_seconds b"
  "config (begin_read now sc k b) = config b"
  "state (begin_read now sc k b) = state b"
  "driver_instances (begin_read now sc k b) = driver_instances b"
  by (simp_all add: begin_read_def Let_def)

lemma read_sensor_keeps:
  assumes "read_sensor E now sc b = (r, c)"
  shows "global_read_frequency_seconds c = global_read_frequency_seconds b
         \<and> config c = config b
         \<and> (last_read_times c k = last_read_times b k \<or> last_read_times c k = Some now)"
  using assms
  by (auto simp: read_sensor_def dest!: try_read_keeps
      split: outcome.splits prod.splits if_splits)

lemma get_effective_frequency_cong:
  "global_read_frequency_seconds b = global_read_frequency_seconds a \<Longrightarrow>
   get_effective_frequency b sc = get_effective_frequency a sc"
  by (simp add: get_effective_frequency_def split: outcome.splits)

lemma sensor_loop_window:
  assumes loop: "sensor_loop E now ss b = (r, c)"
      and sid: "py_index sc ''id'' = Return sid" and k: "hashable sid = Return k"
      and rf: "get_effective_frequency b sc = Return rf" and f: "as_number rf = Some f"
      and t: "last_read_times b k = Some t" "t \<le> now" "now - t < f"
  shows "log_grows b c \<and> ReadStarted sc \<notin> set (emitted b c)
         \<and> (\<exists>t'. last_read_times c k = Some t' \<and> t \<le> t' \<and> t' \<le> now)
         \<and> global_read_frequency_seconds c = global_read_frequency_seconds b"
  using loop rf t
proof (induction ss arbitrary: b t)
  case Nil
  then show ?case by simp
next
  case (Cons s ss)
  obtain r1 b1 where rs: "read_sensor E now s b = (r1, b1)" by (cases "read_sensor E now s b")
  have e1: "emits (sensor_event s) b b1" by (rule emits_read_sensor [OF rs]) simp
  then have g1: "log_grows b b1" by (rule emits_log_grows)
  from read_sensor_keeps [OF rs, of k] have
    glob: "global_read_frequency_seconds b1 = global_read_frequency_seconds b"
    and ts: "last_read_times b1 k = last_read_times b k \<or> last_read_times b1 k = Some now"
    by simp_all
  have no1: "ReadStarted sc \<notin> set (emitted b b1)"
  proof (cases "s = sc")
    case True
    have "\<not> now - last_read b k \<ge> f" using Cons.prems(3,5) by (simp add: last_read_def)
    from read_sensor_not_due [OF sid k Cons.prems(2) f this, of E] rs True
    show ?thesis by simp
  next
    case False
    show ?thesis
    proof
      assume "ReadStarted sc \<in> set (emitted b b1)"
      from emitsD [OF e1 this] False show False by simp
    qed
  qed
  from ts Cons.prems(3,4) obtain t1 where
    t1: "last_read_times b1 k = Some t1" "t \<le> t1" "t1 \<le> now" by auto
  have w1: "now - t1 < f" using t1 Cons.prems(5) by simp
  have rf1: "get_effective_frequency b1 sc = Return rf"
    using Cons.prems(2) get_effective_frequency_cong [OF glob] by simp
  show ?case
  proof (cases r1)
    case (Raise e)
    with Cons.prems(1) rs have "c = b1" by simp
    with g1 no1 t1 glob show ?thesis by auto
  next
    case (Return u)
    with Cons.prems(1) rs have l2: "sensor_loop E now ss b1 = (r, c)" by simp
    from Cons.IH [OF l2 rf1 t1(1) t1(3) w1] have
      ih: "log_grows b1 c" "ReadStarted sc \<notin> set (emitted b1 c)"
        "\<exists>t'. last_read_times c k = Some t' \<and> t1 \<le> t' \<and> t' \<le> now"
        "global_read_frequency_seconds c = global_read_frequency_seconds b1"
      by simp_all
    have "emitted b c = emitted b b1 @ emitted b1 c" by (rule emitted_trans [OF g1 ih(1)])
    moreover have "log_grows b c" by (rule log_grows_trans [OF g1 ih(1)])
    ultimately show ?thesis using no1 ih t1(2) glob by auto
  qed
qed

lemma emits_sensor_loop:
  assumes "sensor_loop E now ss b = (r, c)" "emits P a b"
      and "\<And>s e. s \<in> set ss \<Longrightarrow> sensor_event s e \<Longrightarrow> P e"
  shows "emits P a c"
  using assms
proof (induction ss arbitrary: b)
  case Nil
  then show ?case by simp
next
  case (Cons s ss)
  obtain r1 b1 where rs: "read_sensor E now s b = (r1, b1)" by (cases "read_sensor E now s b")
  have "emits (sensor_event s) b b1" by (rule emits_read_sensor [OF rs]) simp
  then have "emits P b b1" by (rule emits_mono) (rule Cons.prems(3), simp_all)
  then have e1: "emits P a b1" by (rule emits_trans [OF Cons.prems(2)])
  show ?case
  proof (cases r1)
    case (Raise e)
    with Cons.prems(1) rs e1 show ?thesis by simp
  next
    case (Return u)
    with Cons.prems(1) rs have "sensor_loop E now ss b1 = (r, c)" by simp
    then show ?thesis by (rule Cons.IH [OF _ e1]) (rule Cons.prems(3), simp_all)
  qed
qed

lemma active_sensors_eligible:
  "active_sensors xs = Return act \<Longrightarrow> s \<in> set act \<Longrightarrow>
   s \<in> set xs \<and> is_eligible s = Return True"
  by (induction xs arbitrary: act) (auto split: outcome.splits if_splits)

lemma active_sensors_drop:
  "is_eligible sc = Return False \<Longrightarrow>
   active_sensors (pre @ sc # post) = active_sensors (pre @ post)"
  by (induction pre) (auto split: outcome.splits)

lemma not_eligible:
  assumes "(py_get sc ''is_active'' JNull = Return v \<and> \<not> truthy v)
           \<or> py_get sc ''interface'' JNull = Return (JStr ''virtual'')"
  shows "is_eligible sc = Return False"
  using assms by (cases sc) (auto simp: is_eligible_def split: option.splits)

lemma emits_process_sensors:
  assumes "process_sensors E a = (r, c)"
  shows "emits (\<lambda>e. is_time_read e
            \<or> (\<exists>s \<in> set (configured_sensors a). is_eligible s = Return True \<and> sensor_event s e)) a c"
    (is "emits ?P a c")
proof (cases "state a \<noteq> ONLINE \<or> \<not> truthy (config a)")
  case True
  with assms show ?thesis by (simp add: process_sensors_def)
next
  case False
  let ?a1 = "log_event (TimeRead (clock E (io_log a))) a"
  have e1: "emits ?P a ?a1" by (rule emits_single) (simp add: is_time_read_def)
  show ?thesis
  proof (cases "active_sensors (configured_sensors a)")
    case (Raise e)
    with assms False e1 show ?thesis
      by (auto simp: process_sensors_def time_time_def configured_sensors_def Let_def
          split: outcome.splits)
  next
    case (Return act)
    show ?thesis
    proof (cases "py_get (config a) ''sensors'' (JList [])")
      case r1: (Raise e)
      with assms False e1 show ?thesis
        by (auto simp: process_sensors_def time_time_def Let_def)
    next
      case g: (Return ss)
      show ?thesis
      proof (cases "py_iter ss")
        case (Raise e)
        with assms False e1 g show ?thesis
          by (auto simp: process_sensors_def time_time_def Let_def)
      next
        case i: (Return xs)
        from g i have cs: "configured_sensors a = xs" by (simp add: configured_sensors_def)
        from assms False g i Return cs
        have l: "sensor_loop E (clock E (io_log a)) act ?a1 = (r, c)"
          by (simp add: process_sensors_def time_time_def Let_def)
        show ?thesis
        proof (rule emits_sensor_loop [OF l e1])
          fix s e assume "s \<in> set act" "sensor_event s e"
          with active_sensors_eligible [OF Return, of s] show "?P e" by auto
        qed
      qed
    qed
  qed
qed

text \<open>
  C7. Every event of a sampling pass is the one reading of the clock or belongs to the
  read of a sensor of the configuration for which the filter
  \<^verbatim>\<open>s.get('is_active') and s.get('interface') != 'virtual'\<close> is true: no driver is
  imported and no driver is read on behalf of any other entry. A sensor whose
  \<open>is_active\<close> is false (or absent, or anything falsy) or whose interface is
  \<open>virtual\<close> fails the filter, no read of it is started, whatever the configuration,
  the timestamps and the surroundings are, and the list the pass iterates over is the
  one it would be without that entry.
\<close>

theorem inactive_or_virtual_never_read:
  "(\<forall>e \<in> set (emitted a (snd (process_sensors E a))).
      is_time_read e
      \<or> (\<exists>s \<in> set (configured_sensors a). is_eligible s = Return True \<and> sensor_event s e))
   \<and> ((py_get sc ''is_active'' JNull = Return v \<and> \<not> truthy v)
        \<or> py_get sc ''interface'' JNull = Return (JStr ''virtual'') \<longrightarrow>
        is_eligible sc = Return False
        \<and> ReadStarted sc \<notin> set (emitted a (snd (process_sensors E a)))
        \<and> active_sensors (pre @ sc # post) = active_sensors (pre @ post))"
proof -
  obtain r c where p: "process_sensors E a = (r, c)" by (cases "process_sensors E a")
  note em = emits_process_sensors [OF p]
  have 1: "is_time_read e
      \<or> (\<exists>s \<in> set (configured_sensors a). is_eligible s = Return True \<and> sensor_event s e)"
    if "e \<in> set (emitted a c)" for e
    using emitsD [OF em that] .
  have 2: "is_eligible sc = Return False
        \<and> ReadStarted sc \<notin> set (emitted a c)
        \<and> active_sensors (pre @ sc # post) = active_sensors (pre @ post)"
    if h: "(py_get sc ''is_active'' JNull = Return v \<and> \<not> truthy v)
        \<or> py_get sc ''interface'' JNull = Return (JStr ''virtual'')"
  proof -
    have ne: "is_eligible sc = Return False" by (rule not_eligible [OF h])
    have "ReadStarted sc \<notin> set (emitted a c)"
    proof
      assume "ReadStarted sc \<in> set (emitted a c)"
      from 1 [OF this] ne show False by (auto simp: is_time_read_def)
    qed
    with ne active_sensors_drop [OF ne] show ?thesis by simp
  qed
  from 1 2 p show ?thesis by auto
qed

theorem inactive_or_virtual_never_read_witness:
  "ReadStarted lidar_sensor
     \<in> set (emitted mixed_agent (snd (process_sensors lidar_env mixed_agent)))
   \<and> \<not> is_time_read (ReadStarted lidar_sensor)
   \<and> lidar_sensor \<in> set (configured_sensors mixed_agent)
   \<and> is_eligible lidar_sensor = Return True
   \<and> py_get virtual_sensor ''interface'' JNull = Return (JStr ''virtual'')
   \<and> is_eligible virtual_sensor = Return False
   \<and> ReadStarted virtual_sensor
        \<notin> set (emitted mixed_agent (snd (process_sensors lidar_env mixed_agent)))"
proof -
  have e: "ReadStarted lidar_sensor
     \<in> set (emitted mixed_agent (snd (process_sensors lidar_env mixed_agent)))"
    by (simp add: eval_defs example_defs mixed_agent_def virtual_sensor_def emitted_def)
  have t: "\<not> is_time_read (ReadStarted lidar_sensor)" by (simp add: is_time_read_def)
  have c: "lidar_sensor \<in> set (configured_sensors mixed_agent)"
    by (simp add: configured_sensors_def mixed_agent_def)
  have l: "is_eligible lidar_sensor = Return True"
    by (simp add: is_eligible_def lidar_sensor_def)
  have v: "py_get virtual_sensor ''interface'' JNull = Return (JStr ''virtual'')"
    by (simp add: virtual_sensor_def)
  show ?thesis
    using inactive_or_virtual_never_read [where a = mixed_agent and E = lidar_env
        and sc = virtual_sensor and v = JNull and pre = "[]" and post = "[]"] e t c l v
    by simp
qed

section \<open>Which sensors a pass reads\<close>

lemma read_sensor_returns_due:
  assumes "read_sensor E now s a = (Return u, a1)"
  shows "(ReadStarted s \<in> set (emitted a a1)) = is_due a now s"
proof -
  from assms obtain sid k rf f where
    h: "py_index s ''id'' = Return sid" "hashable sid = Return k"
       "get_effective_frequency a s = Return rf" "as_number rf = Some f"
    by (auto simp: read_sensor_def py_ge_def split: outcome.splits option.splits)
  have d: "is_due a now s = (now - last_read a k \<ge> f)"
    using h by (simp add: is_due_def sensor_key_def)
  show ?thesis
  proof (cases "now - last_read a k \<ge> f")
    case False
    from read_sensor_not_due [OF h False, of E] assms d False show ?thesis by simp
  next
    case True
    with assms h obtain nm where n: "py_index s ''name'' = Return nm"
      by (auto simp: read_sensor_def py_ge_def split: outcome.splits)
    from emitted_read_sensor_due [OF h n True, of E] assms d True show ?thesis by simp
  qed
qed

lemma read_sensor_other_keys:
  assumes "read_sensor E now s a = (r, a1)" "sensor_key s \<noteq> Some k"
  shows "last_read_times a1 k = last_read_times a k"
  using assms
  by (auto simp: read_sensor_def sensor_key_def dest!: try_read_keeps
      split: outcome.splits prod.splits if_splits)

lemma is_due_cong:
  assumes "global_read_frequency_seconds b = global_read_frequency_seconds a"
      and "\<And>k. sensor_key s = Some k \<Longrightarrow> last_read_times b k = last_read_times a k"
  shows "is_due b now s = is_due a now s"
  using assms get_effective_frequency_cong [OF assms(1), of s]
  by (auto simp: is_due_def last_read_def split: option.splits outcome.splits)

lemma sensor_loop_due:
  assumes "sensor_loop E now ss a = (Return u, a')" "distinct (map sensor_key ss)"
      and "s \<in> set ss"
  shows "(ReadStarted s \<in> set (emitted a a')) = is_due a now s"
  using assms
proof (induction ss arbitrary: a)
  case Nil
  then show ?case by simp
next
  case (Cons x xs)
  obtain r1 a1 where rs: "read_sensor E now x a = (r1, a1)" by (cases "read_sensor E now x a")
  with Cons.prems(1) obtain u1 where r1: "r1 = Return u1" and
    l: "sensor_loop E now xs a1 = (Return u, a')"
    by (cases r1) auto
  have e1: "emits (sensor_event x) a a1" by (rule emits_read_sensor [OF rs]) simp
  have e2: "emits (\<lambda>e. \<exists>y \<in> set xs. sensor_event y e) a1 a'"
    by (rule emits_sensor_loop [OF l]) auto
  have em: "emitted a a' = emitted a a1 @ emitted a1 a'"
    by (rule emitted_trans [OF emits_log_grows [OF e1] emits_log_grows [OF e2]])
  from Cons.prems(2) have dx: "sensor_key x \<notin> sensor_key ` set xs" and dxs: "distinct (map sensor_key xs)"
    by simp_all
  show ?case
  proof (cases "s = x")
    case True
    have "x \<notin> set xs" using dx by auto
    then have "ReadStarted x \<notin> set (emitted a1 a')"
      using emitsD [OF e2, of "ReadStarted x"] by auto
    with em True read_sensor_returns_due [OF rs [unfolded r1]] show ?thesis by simp
  next
    case False
    with Cons.prems(3) have sx: "s \<in> set xs" by simp
    have n1: "ReadStarted s \<notin> set (emitted a a1)"
      using emitsD [OF e1, of "ReadStarted s"] False by auto
    have "is_due a1 now s = is_due a now s"
    proof (rule is_due_cong)
      show "global_read_frequency_seconds a1 = global_read_frequency_seconds a"
        using read_sensor_keeps [OF rs] by simp
    next
      fix k assume "sensor_key s = Some k"
      with dx sx have "sensor_key x \<noteq> Some k" by force
      then show "last_read_times a1 k = last_read_times a k"
        by (rule read_sensor_other_keys [OF rs])
    qed
    with Cons.IH [OF l dxs sx] em n1 show ?thesis by simp
  qed
qed

lemma process_sensors_due:
  assumes on: "state a = ONLINE" "truthy (config a)"
      and act: "active_sensors (configured_sensors a) = Return act"
      and dist: "distinct (map sensor_key act)"
      and ret: "fst (process_sensors E a) = Return ()"
      and s: "s \<in> set act"
  shows "(ReadStarted s \<in> set (emitted a (snd (process_sensors E a))))
           = is_due a (clock E (io_log a)) s"
proof -
  let ?now = "clock E (io_log a)"
  let ?a1 = "log_event (TimeRead ?now) a"
  obtain r a' where p: "process_sensors E a = (r, a')" by (cases "process_sensors E a")
  with ret have r: "r = Return ()" by simp
  from p r on obtain ss xs act' where
    g: "py_get (config a) ''sensors'' (JList []) = Return ss" "py_iter ss = Return xs"
       "active_sensors xs = Return act'" "sensor_loop E ?now act' ?a1 = (Return (), a')"
    by (auto simp: process_sensors_def time_time_def Let_def split: outcome.splits)
  from g(1,2) have "configured_sensors a = xs" by (simp add: configured_sensors_def)
  with g(3) act have "act' = act" by simp
  with g(4) have l: "sensor_loop E ?now act ?a1 = (Return (), a')" by simp
  have e: "emits (\<lambda>e. True) ?a1 a'" by (rule emits_sensor_loop [OF l]) simp_all
  have "log_grows a ?a1" by (simp add: log_grows_log_event)
  from emitted_trans [OF this emits_log_grows [OF e]]
  have em: "emitted a a' = TimeRead ?now # emitted ?a1 a'" by simp
  have "is_due ?a1 ?now s = is_due a ?now s" by (rule is_due_cong) simp_all
  with sensor_loop_due [OF l dist s] em p show ?thesis by simp
qed

text \<open>
  C4. The effective frequency is the global value when that is greater than 0, and
  otherwise what \<^verbatim>\<open>sensor_config.get('read_frequency', 300)\<close> gives: the sensor's own
  entry, or 300 when it has none. For a sensor that has an id and a name and whose
  effective frequency is a number, the loop body starts a read exactly when the time
  since \<^verbatim>\<open>last_read_times.get(id, 0)\<close> is at least that frequency, which is what
  \<open>is_due\<close> says: then its first events are the start line and the write of the
  timestamp; otherwise it does nothing. In a sampling pass that runs to its end, over
  sensors with different ids, a read is started for a sensor of the pass exactly when it
  is due at the time and with the timestamps of the beginning of the pass.
\<close>

theorem effective_frequency_and_due:
  "(as_number (global_read_frequency_seconds a) = Some g \<longrightarrow>
      get_effective_frequency a sc
        = (if g > 0 then Return (global_read_frequency_seconds a)
           else py_get sc ''read_frequency'' (JInt 300)))
   \<and> py_get (JDict kvs) ''read_frequency'' (JInt 300)
        = Return (case map_of kvs ''read_frequency'' of None \<Rightarrow> JInt 300 | Some v \<Rightarrow> v)
   \<and> (py_index sc ''id'' = Return sid \<and> hashable sid = Return k
        \<and> get_effective_frequency a sc = Return rf \<and> as_number rf = Some f
        \<and> py_index sc ''name'' = Return nm \<longrightarrow>
        is_due a now sc = (now - last_read a k \<ge> f)
        \<and> (ReadStarted sc \<in> set (emitted a (snd (read_sensor E now sc a)))
             \<longleftrightarrow> now - last_read a k \<ge> f)
        \<and> (now - last_read a k \<ge> f \<longrightarrow>
             take 2 (emitted a (snd (read_sensor E now sc a)))
               = [ReadStarted sc, SetLastRead k now])
        \<and> (\<not> now - last_read a k \<ge> f \<longrightarrow> read_sensor E now sc a = (Return (), a)))
   \<and> (state a = ONLINE \<and> truthy (config a)
        \<and> active_sensors (configured_sensors a) = Return act
        \<and> distinct (map sensor_key act)
        \<and> fst (process_sensors E a) = Return ()
        \<and> s \<in> set act \<longrightarrow>
        (ReadStarted s \<in> set (emitted a (snd (process_sensors E a)))
           \<longleftrightarrow> is_due a (clock E (io_log a)) s))"
proof -
  have 1: "get_effective_frequency a sc
        = (if g > 0 then Return (global_read_frequency_seconds a)
           else py_get sc ''read_frequency'' (JInt 300))"
    if "as_number (global_read_frequency_seconds a) = Some g"
    using that by (simp add: get_effective_frequency_def py_gt0_def)
  have 2: "py_get (JDict kvs) ''read_frequency'' (JInt 300)
        = Return (case map_of kvs ''read_frequency'' of None \<Rightarrow> JInt 300 | Some v \<Rightarrow> v)"
    by simp
  have 3: "is_due a now sc = (now - last_read a k \<ge> f)
        \<and> (ReadStarted sc \<in> set (emitted a (snd (read_sensor E now sc a)))
             \<longleftrightarrow> now - last_read a k \<ge> f)
        \<and> (now - last_read a k \<ge> f \<longrightarrow>
             take 2 (emitted a (snd (read_sensor E now sc a)))
               = [ReadStarted sc, SetLastRead k now])
        \<and> (\<not> now - last_read a k \<ge> f \<longrightarrow> read_sensor E now sc a = (Return (), a))"
    if h: "py_index sc ''id'' = Return sid" "hashable sid = Return k"
      "get_effective_frequency a sc = Return rf" "as_number rf = Some f"
      "py_index sc ''name'' = Return nm"
  proof -
    have d: "is_due a now sc = (now - last_read a k \<ge> f)"
      using h by (simp add: is_due_def sensor_key_def)
    show ?thesis
    proof (cases "now - last_read a k \<ge> f")
      case True
      from emitted_read_sensor_due [OF h True, of E] True d show ?thesis by simp
    next
      case False
      from read_sensor_not_due [OF h(1-4) False, of E] False d show ?thesis by simp
    qed
  qed
  have 4: "ReadStarted s \<in> set (emitted a (snd (process_sensors E a)))
           \<longleftrightarrow> is_due a (clock E (io_log a)) s"
    if "state a = ONLINE" "truthy (config a)"
      "active_sensors (configured_sensors a) = Return act"
      "distinct (map sensor_key act)" "fst (process_sensors E a) = Return ()" "s \<in> set act"
    using that by (rule process_sensors_due)
  from 1 2 3 4 show ?thesis by blast
qed

theorem effective_frequency_and_due_witness:
  "as_number (global_read_frequency_seconds lidar_agent) = Some 0
   \<and> get_effective_frequency lidar_agent lidar_sensor = Return (JInt 10)
   \<and> py_index lidar_sensor ''id'' = Return (JInt 1)
   \<and> hashable (JInt 1) = Return (KNum 1)
   \<and> as_number (JInt 10) = Some 10
   \<and> py_index lidar_sensor ''name'' = Return (JStr ''lidar'')
   \<and> 1005 - last_read lidar_agent (KNum 1) \<ge> 10
   \<and> ReadStarted lidar_sensor
        \<in> set (emitted lidar_agent (snd (read_sensor lidar_env 1005 lidar_sensor lidar_agent)))
   \<and> \<not> 1005 - last_read lidar_agent_read (KNum 1) \<ge> 10
   \<and> read_sensor lidar_env 1005 lidar_sensor lidar_agent_read = (Return (), lidar_agent_read)
   \<and> state lidar_agent = ONLINE \<and> truthy (config lidar_agent)
   \<and> active_sensors (configured_sensors lidar_agent) = Return [lidar_sensor]
   \<and> distinct (map sensor_key [lidar_sensor])
   \<and> fst (process_sensors lidar_env lidar_agent) = Return ()
   \<and> is_due lidar_agent (clock lidar_env (io_log lidar_agent)) lidar_sensor
   \<and> ReadStarted lidar_sensor
        \<in> set (emitted lidar_agent (snd (process_sensors lidar_env lidar_agent)))"
proof -
  have g: "as_number (global_read_frequency_seconds lidar_agent) = Some 0"
    by (simp add: example_defs)
  have g': "get_effective_frequency lidar_agent_read lidar_sensor = Return (JInt 10)"
    by (simp add: get_effective_frequency_def py_gt0_def lidar_agent_read_def example_defs)
  have i: "py_index lidar_sensor ''id'' = Return (JInt 1)"
    by (simp add: lidar_sensor_def)
  have h: "hashable (JInt 1) = Return (KNum 1)" by simp
  have n: "as_number (JInt 10) = Some 10" by simp
  have m: "py_index lidar_sensor ''name'' = Return (JStr ''lidar'')"
    by (simp add: lidar_sensor_def)
  have d: "1005 - last_read lidar_agent (KNum 1) \<ge> 10"
    by (simp add: last_read_def example_defs)
  have d': "\<not> 1005 - last_read lidar_agent_read (KNum 1) \<ge> 10"
    by (simp add: last_read_def lidar_agent_read_def example_defs)
  have f: "get_effective_frequency lidar_agent lidar_sensor = Return (JInt 10)"
    using effective_frequency_and_due [where a = lidar_agent and g = 0 and sc = lidar_sensor] g
    by (simp add: lidar_sensor_def)
  have A: "ReadStarted lidar_sensor
        \<in> set (emitted lidar_agent (snd (read_sensor lidar_env 1005 lidar_sensor lidar_agent)))"
    using effective_frequency_and_due [where a = lidar_agent and sc = lidar_sensor
        and sid = "JInt 1" and k = "KNum 1" and rf = "JInt 10" and f = 10
        and nm = "JStr ''lidar''" and E = lidar_env and now = 1005] f i h n m d
    by blast
  have B: "read_sensor lidar_env 1005 lidar_sensor lidar_agent_read
             = (Return (), lidar_agent_read)"
    using effective_frequency_and_due [where a = lidar_agent_read and sc = lidar_sensor
        and sid = "JInt 1" and k = "KNum 1" and rf = "JInt 10" and f = 10
        and nm = "JStr ''lidar''" and E = lidar_env and now = 1005] g' i h n m d'
    by blast
  have o: "state lidar_agent = ONLINE" "truthy (config lidar_agent)"
    by (simp_all add: example_defs)
  have ac: "active_sensors (configured_sensors lidar_agent) = Return [lidar_sensor]"
    by (simp add: configured_sensors_def is_eligible_def example_defs)
  have di: "distinct (map sensor_key [lidar_sensor])" by simp
  have r: "fst (process_sensors lidar_env lidar_agent) = Return ()"
    by (simp add: eval_defs example_defs)
  have du: "is_due lidar_agent (clock lidar_env (io_log lidar_agent)) lidar_sensor"
    by (simp add: is_due_def sensor_key_def get_effective_frequency_def py_gt0_def
        last_read_def example_defs)
  have C: "ReadStarted lidar_sensor
        \<in> set (emitted lidar_agent (snd (process_sensors lidar_env lidar_agent)))"
    using effective_frequency_and_due [where a = lidar_agent and E = lidar_env
        and act = "[lidar_sensor]" and s = lidar_sensor] o ac di r du
    by simp
  from g f i h n m d d' A B o ac di r du C show ?thesis by blast
qed

section \<open>Timestamps\<close>

lemma process_sensors_window:
  assumes sid: "py_index sc ''id'' = Return sid" and k: "hashable sid = Return k"
      and rf: "get_effective_frequency a sc = Return rf" and f: "as_number rf = Some f"
      and t: "last_read_times a k = Some t" "t \<le> clock E (io_log a)"
             "clock E (io_log a) - t < f"
  shows "ReadStarted sc \<notin> set (emitted a (snd (process_sensors E a)))
         \<and> (\<exists>t'. last_read_times (snd (process_sensors E a)) k = Some t' \<and> t \<le> t'
                 \<and> t' \<le> clock E (io_log a))
         \<and> global_read_frequency_seconds (snd (process_sensors E a))
             = global_read_frequency_seconds a"
proof -
  let ?now = "clock E (io_log a)"
  let ?a1 = "log_event (TimeRead ?now) a"
  obtain r c where p: "process_sensors E a = (r, c)" by (cases "process_sensors E a")
  consider (same) "c = a" | (early) "c = ?a1"
    | (loop) act where "sensor_loop E ?now act ?a1 = (r, c)"
    using p
    by (auto simp: process_sensors_def time_time_def Let_def split: if_splits outcome.splits)
  then have "ReadStarted sc \<notin> set (emitted a c)
         \<and> (\<exists>t'. last_read_times c k = Some t' \<and> t \<le> t' \<and> t' \<le> ?now)
         \<and> global_read_frequency_seconds c = global_read_frequency_seconds a"
  proof cases
    case same
    with t show ?thesis by simp
  next
    case early
    with t show ?thesis by simp
  next
    case loop
    have rf1: "get_effective_frequency ?a1 sc = Return rf"
      using rf get_effective_frequency_cong [of ?a1 a sc] by simp
    have t1: "last_read_times ?a1 k = Some t" using t by simp
    from sensor_loop_window [OF loop sid k rf1 f t1 t(2,3)] have
      w: "log_grows ?a1 c" "ReadStarted sc \<notin> set (emitted ?a1 c)"
         "\<exists>t'. last_read_times c k = Some t' \<and> t \<le> t' \<and> t' \<le> ?now"
         "global_read_frequency_seconds c = global_read_frequency_seconds ?a1"
      by simp_all
    have "log_grows a ?a1" by (simp add: log_grows_log_event)
    from emitted_trans [OF this w(1)] w show ?thesis by simp
  qed
  with p show ?thesis by simp
qed

text \<open>
  C5. When a read of a sensor is due, the loop body writes \<open>now\<close> to
  \<open>last_read_times\<close> under the sensor's id right after the start line, as its second
  event, before anything of the \<open>try\<close> block: the driver is resolved and invoked in an
  agent that already has the timestamp, and the timestamp is there at the end whatever
  the surroundings do, whether the load fails, the read returns a value or None or
  raises, the submission fails, or an exception leaves the body. Consequently a pass
  that begins with a timestamp \<open>t\<close> recorded for the sensor, at a time from \<open>t\<close> on and
  less than the effective frequency after \<open>t\<close>, starts no read of it and leaves a
  timestamp between \<open>t\<close> and its own time; and the pass after that one, if it is still
  within the window, starts none either.
\<close>

theorem timestamp_set_at_attempt_start:
  "(py_index sc ''id'' = Return sid \<and> hashable sid = Return k
      \<and> get_effective_frequency a sc = Return rf \<and> as_number rf = Some f
      \<and> py_index sc ''name'' = Return nm \<and> now - last_read a k \<ge> f \<longrightarrow>
      last_read_times (snd (read_sensor E now sc a)) k = Some now
      \<and> take 2 (emitted a (snd (read_sensor E now sc a))) = [ReadStarted sc, SetLastRead k now]
      \<and> last_read_times (begin_read now sc k a) k = Some now
      \<and> snd (read_sensor E now sc a) = snd (try_read E sc sid (begin_read now sc k a)))
   \<and> (py_index sc ''id'' = Return sid \<and> hashable sid = Return k
      \<and> get_effective_frequency a sc = Return rf \<and> as_number rf = Some f
      \<and> last_read_times a k = Some t
      \<and> t \<le> clock E (io_log a) \<and> clock E (io_log a) - t < f \<longrightarrow>
      ReadStarted sc \<notin> set (emitted a (snd (process_sensors E a)))
      \<and> (\<exists>t'. last_read_times (snd (process_sensors E a)) k = Some t' \<and> t \<le> t'
              \<and> t' \<le> clock E (io_log a))
      \<and> (clock E (io_log a) \<le> clock E' (io_log (snd (process_sensors E a)))
           \<and> clock E' (io_log (snd (process_sensors E a))) - t < f \<longrightarrow>
           ReadStarted sc \<notin> set (emitted (snd (process_sensors E a))
                                    (snd (process_sensors E' (snd (process_sensors E a)))))))"
proof -
  have A: "last_read_times (snd (read_sensor E now sc a)) k = Some now
      \<and> take 2 (emitted a (snd (read_sensor E now sc a))) = [ReadStarted sc, SetLastRead k now]
      \<and> last_read_times (begin_read now sc k a) k = Some now
      \<and> snd (read_sensor E now sc a) = snd (try_read E sc sid (begin_read now sc k a))"
    if h: "py_index sc ''id'' = Return sid" "hashable sid = Return k"
      "get_effective_frequency a sc = Return rf" "as_number rf = Some f"
      "py_index sc ''name'' = Return nm" "now - last_read a k \<ge> f"
  proof -
    obtain r a3 where tr: "try_read E sc sid (begin_read now sc k a) = (r, a3)"
      by (cases "try_read E sc sid (begin_read now sc k a)")
    from try_read_keeps [OF tr] have "last_read_times a3 k = Some now" by simp
    with read_sensor_due [OF h, of E] emitted_read_sensor_due [OF h, of E] tr
    show ?thesis by simp
  qed
  have B: "ReadStarted sc \<notin> set (emitted a (snd (process_sensors E a)))
      \<and> (\<exists>t'. last_read_times (snd (process_sensors E a)) k = Some t' \<and> t \<le> t'
              \<and> t' \<le> clock E (io_log a))
      \<and> (clock E (io_log a) \<le> clock E' (io_log (snd (process_sensors E a)))
           \<and> clock E' (io_log (snd (process_sensors E a))) - t < f \<longrightarrow>
           ReadStarted sc \<notin> set (emitted (snd (process_sensors E a))
                                    (snd (process_sensors E' (snd (process_sensors E a))))))"
    if h: "py_index sc ''id'' = Return sid" "hashable sid = Return k"
      "get_effective_frequency a sc = Return rf" "as_number rf = Some f"
      "last_read_times a k = Some t"
      "t \<le> clock E (io_log a)" "clock E (io_log a) - t < f"
  proof -
    let ?a2 = "snd (process_sensors E a)"
    from process_sensors_window [OF h] obtain t' where
      w: "ReadStarted sc \<notin> set (emitted a ?a2)"
         "last_read_times ?a2 k = Some t'" "t \<le> t'" "t' \<le> clock E (io_log a)"
         "global_read_frequency_seconds ?a2 = global_read_frequency_seconds a"
      by blast
    have rf2: "get_effective_frequency ?a2 sc = Return rf"
      using h(3) get_effective_frequency_cong [OF w(5)] by simp
    have "ReadStarted sc \<notin> set (emitted ?a2 (snd (process_sensors E' ?a2)))"
      if n: "clock E (io_log a) \<le> clock E' (io_log ?a2)" "clock E' (io_log ?a2) - t < f"
    proof -
      have 1: "t' \<le> clock E' (io_log ?a2)" using w(4) n(1) by simp
      have 2: "clock E' (io_log ?a2) - t' < f" using w(3) n(2) by simp
      from process_sensors_window [OF h(1,2) rf2 h(4) w(2) 1 2] show ?thesis by simp
    qed
    with w show ?thesis by blast
  qed
  from A B show ?thesis by blast
qed

theorem timestamp_set_at_attempt_start_witness:
  "py_index lidar_sensor ''id'' = Return (JInt 1)
   \<and> hashable (JInt 1) = Return (KNum 1)
   \<and> get_effective_frequency lidar_agent lidar_sensor = Return (JInt 10)
   \<and> as_number (JInt 10) = Some 10
   \<and> py_index lidar_sensor ''name'' = Return (JStr ''lidar'')
   \<and> 1005 - last_read lidar_agent (KNum 1) \<ge> 10
   \<and> last_read_times (snd (read_sensor dead_env 1005 lidar_sensor lidar_agent)) (KNum 1)
       = Some 1005
   \<and> last_read_times lidar_agent_read (KNum 1) = Some 1000
   \<and> 1000 \<le> clock lidar_env (io_log lidar_agent_read)
   \<and> clock lidar_env (io_log lidar_agent_read) - 1000 < 10
   \<and> clock lidar_env (io_log lidar_agent_read)
       \<le> clock lidar_env (io_log (snd (process_sensors lidar_env lidar_agent_read)))
   \<and> clock lidar_env (io_log (snd (process_sensors lidar_env lidar_agent_read))) - 1000 < 10
   \<and> ReadStarted lidar_sensor
       \<notin> set (emitted lidar_agent_read (snd (process_sensors lidar_env lidar_agent_read)))
   \<and> ReadStarted lidar_sensor
       \<notin> set (emitted (snd (process_sensors lidar_env lidar_agent_read))
                (snd (process_sensors lidar_env
                        (snd (process_sensors lidar_env lidar_agent_read)))))"
proof -
  have i: "py_index lidar_sensor ''id'' = Return (JInt 1)"
    by (simp add: lidar_sensor_def)
  have h: "hashable (JInt 1) = Return (KNum 1)" by simp
  have f: "get_effective_frequency lidar_agent lidar_sensor = Return (JInt 10)"
    by (simp add: get_effective_frequency_def py_gt0_def example_defs)
  have f': "get_effective_frequency lidar_agent_read lidar_sensor = Return (JInt 10)"
    by (simp add: get_effective_frequency_def py_gt0_def lidar_agent_read_def example_defs)
  have n: "as_number (JInt 10) = Some 10" by simp
  have m: "py_index lidar_sensor ''name'' = Return (JStr ''lidar'')"
    by (simp add: lidar_sensor_def)
  have d: "1005 - last_read lidar_agent (KNum 1) \<ge> 10"
    by (simp add: last_read_def example_defs)
  have t: "last_read_times lidar_agent_read (KNum 1) = Some 1000"
    by (simp add: lidar_agent_read_def)
  have c1: "clock lidar_env (io_log lidar_agent_read) = 1000"
    by (simp add: lidar_agent_read_def example_defs)
  have c2: "clock lidar_env (io_log (snd (process_sensors lidar_env lidar_agent_read))) = 1001"
    by (simp add: eval_defs lidar_agent_read_def example_defs)
  have w1: "1000 \<le> clock lidar_env (io_log lidar_agent_read)"
    and w2: "clock lidar_env (io_log lidar_agent_read) - 1000 < 10"
    and w3: "clock lidar_env (io_log lidar_agent_read)
               \<le> clock lidar_env (io_log (snd (process_sensors lidar_env lidar_agent_read)))"
    and w4: "clock lidar_env (io_log (snd (process_sensors lidar_env lidar_agent_read))) - 1000
               < 10"
    by (simp_all add: c1 c2)
  have A: "last_read_times (snd (read_sensor dead_env 1005 lidar_sensor lidar_agent)) (KNum 1)
             = Some 1005"
    using timestamp_set_at_attempt_start [where sc = lidar_sensor and sid = "JInt 1"
        and k = "KNum 1" and a = lidar_agent and rf = "JInt 10" and f = 10
        and nm = "JStr ''lidar''" and now = 1005 and E = dead_env] i h f n m d
    by blast
  have B: "ReadStarted lidar_sensor
       \<notin> set (emitted lidar_agent_read (snd (process_sensors lidar_env lidar_agent_read)))
     \<and> ReadStarted lidar_sensor
       \<notin> set (emitted (snd (process_sensors lidar_env lidar_agent_read))
                (snd (process_sensors lidar_env
                        (snd (process_sensors lidar_env lidar_agent_read)))))"
    using timestamp_set_at_attempt_start [where sc = lidar_sensor and sid = "JInt 1"
        and k = "KNum 1" and a = lidar_agent_read and rf = "JInt 10" and f = 10
        and t = 1000 and E = lidar_env and E' = lidar_env] i h f' n t w1 w2 w3 w4
    by blast
  from i h f n m d t w1 w2 w3 w4 A B show ?thesis by blast
qed

section \<open>Connectivity\<close>

lemma offline_step_refl [simp]: "offline_step a a"
  by (simp add: offline_step_def)

lemma offline_step_trans:
  assumes "offline_step a b" "offline_step b c"
  shows "offline_step a c"
proof -
  from assms have g: "log_grows a b" "log_grows b c" by (simp_all add: offline_step_def)
  have e: "emitted a c = emitted a b @ emitted b c" by (rule emitted_trans [OF g])
  have "log_grows a c" by (rule log_grows_trans [OF g])
  with assms e show ?thesis by (auto simp: offline_step_def)
qed

lemma offline_step_single: "\<not> failed_submission e \<Longrightarrow> offline_step b (log_event e b)"
  by (simp add: offline_step_def log_grows_log_event)

lemma offline_step_log_event:
  "offline_step a b \<Longrightarrow> \<not> failed_submission e \<Longrightarrow> offline_step a (log_event e b)"
  by (rule offline_step_trans [OF _ offline_step_single])

lemma offline_step_fields [simp]:
  "offline_step a (b\<lparr>last_read_times := l\<rparr>) = offline_step a b"
  "offline_step a (b\<lparr>driver_instances := dr\<rparr>) = offline_step a b"
  by (simp_all add: offline_step_def log_grows_def emitted_def)

lemma offline_step_set_offline:
  "offline_step a b \<Longrightarrow> offline_step a (set_state OFFLINE (log_event e b))"
  by (auto simp: offline_step_def intro: log_grows_log_event)

lemma offline_step_send_reading:
  assumes "send_reading E p b = (r, c)" "offline_step a b"
  shows "offline_step a c"
  using assms
  by (auto simp: send_reading_def Let_def failed_submission_def request_fails_def
      intro!: offline_step_log_event offline_step_set_offline
      split: http_result.splits if_splits)

lemma offline_step_load_driver:
  assumes "load_driver E dn b = (r, c)" "offline_step a b"
  shows "offline_step a c"
  using load_driver_cases [OF assms(1)] assms(2)
  by (auto simp: failed_submission_def intro!: offline_step_log_event)

lemma offline_step_try_read:
  assumes "try_read E sc sid b = (r, c)" "offline_step a b"
  shows "offline_step a c"
  using assms
  by (auto simp: try_read_def Let_def failed_submission_def intro!: offline_step_log_event
      dest!: offline_step_load_driver [where a = a] offline_step_send_reading [where a = a]
      split: outcome.splits option.splits prod.splits if_splits)

lemma offline_step_read_sensor:
  assumes "read_sensor E now sc b = (r, c)" "offline_step a b"
  shows "offline_step a c"
  using assms
  by (auto simp: read_sensor_def begin_read_def Let_def failed_submission_def
      dest!: offline_step_try_read [where a = a] intro!: offline_step_log_event
      split: outcome.splits prod.splits if_splits)

lemma offline_step_sensor_loop:
  assumes "sensor_loop E now ss b = (r, c)" "offline_step a b"
  shows "offline_step a c"
  using assms
proof (induction ss arbitrary: b)
  case Nil
  then show ?case by simp
next
  case (Cons s ss)
  obtain r1 b1 where rs: "read_sensor E now s b = (r1, b1)" by (cases "read_sensor E now s b")
  have s1: "offline_step a b1" by (rule offline_step_read_sensor [OF rs Cons.prems(2)])
  show ?case
  proof (cases r1)
    case (Return u)
    with Cons.prems(1) rs have "sensor_loop E now ss b1 = (r, c)" by simp
    then show ?thesis by (rule Cons.IH [OF _ s1])
  next
    case (Raise e)
    with Cons.prems(1) rs s1 show ?thesis by simp
  qed
qed

lemma offline_step_process_sensors:
  assumes "process_sensors E b = (r, c)"
  shows "offline_step b c"
  using assms
  by (auto simp: process_sensors_def time_time_def Let_def failed_submission_def
      dest!: offline_step_sensor_loop [where a = b] intro!: offline_step_single
      split: outcome.splits if_splits)

lemma process_sensors_gated:
  "state a \<noteq> ONLINE \<Longrightarrow> process_sensors E a = (Return (), a)"
  by (simp add: process_sensors_def)

lemma check_for_commands_gated:
  "state a \<noteq> ONLINE \<Longrightarrow> check_for_commands E a = (Return (), a)"
  by (simp add: check_for_commands_def)

lemma fetch_config_log:
  "io_log (snd (fetch_config E a)) = io_log a @ [HttpGetConfig (http_get_config E (io_log a))]"
  by (simp add: fetch_config_def Let_def split: http_result.splits outcome.splits)

lemma py_get_of_indexable:
  "py_index b k = Return v \<Longrightarrow> py_get b k' d \<noteq> Raise e"
  by (cases b) auto

lemma fetch_config_online:
  "state (snd (fetch_config E a)) = ONLINE \<longleftrightarrow> config_accepted (http_get_config E (io_log a))"
  by (auto simp: fetch_config_def Let_def config_accepted_def sized_def set_state_def
      dest: py_get_of_indexable split: http_result.splits outcome.splits)

lemma fetch_config_accepted:
  "config_accepted (http_get_config E (io_log a)) \<Longrightarrow> fst (fetch_config E a) = Return ()"
  by (auto simp: fetch_config_def Let_def config_accepted_def sized_def
      dest: py_get_of_indexable split: http_result.splits outcome.splits)


lemma time_time_eq:
  "time_time E a = (clock E (io_log a), log_event (TimeRead (clock E (io_log a))) a)"
  by (simp add: time_time_def Let_def)

lemma poll_config_offline:
  assumes p: "poll_config E lcf b = (r, l, c)" and s: "state b \<noteq> ONLINE"
  shows "emits quiet b c \<and> (no_accepted_fetch (emitted b c) \<longrightarrow> state c \<noteq> ONLINE)"
proof -
  let ?t = "clock E (io_log b)"
  let ?b1 = "log_event (TimeRead ?t) b"
  have q1: "emits quiet b ?b1" by (rule emits_single) (simp add: quiet_def is_time_read_def)
  show ?thesis
  proof (cases "?t - lcf \<ge> CONFIG_POLL_INTERVAL")
    case False
    with p have "c = ?b1" by (simp add: poll_config_def time_time_eq)
    with q1 s show ?thesis by simp
  next
    case True
    obtain r2 b2 where f: "fetch_config E ?b1 = (r2, b2)" by (cases "fetch_config E ?b1")
    let ?h = "HttpGetConfig (http_get_config E (io_log ?b1))"
    from fetch_config_log [of E ?b1] f have l2: "io_log b2 = io_log ?b1 @ [?h]" by simp
    from fetch_config_online [of E ?b1] f
    have o2: "state b2 = ONLINE \<longleftrightarrow> config_accepted (http_get_config E (io_log ?b1))" by simp
    have "emits quiet ?b1 b2"
      using l2 by (simp add: emits_def log_growsI emitted_eq quiet_def is_config_fetch_def)
    then have q2: "emits quiet b b2" by (rule emits_trans [OF q1])
    have e2: "?h \<in> set (emitted b b2)"
      using l2 by (simp add: emitted_def)
    let ?b3 = "log_event (TimeRead (clock E (io_log b2))) b2"
    have q3: "emits quiet b ?b3"
      by (rule emits_log_event [OF q2]) (simp add: quiet_def is_time_read_def)
    have e3: "?h \<in> set (emitted b ?b3)"
      using l2 by (simp add: emitted_def)
    from p True f have "c = b2 \<or> c = ?b3"
      by (auto simp: poll_config_def time_time_eq split: outcome.splits)
    then show ?thesis
      using q2 q3 e2 e3 o2 by (auto simp: no_accepted_fetch_def)
  qed
qed

lemma poll_commands_offline:
  assumes p: "poll_commands E lcc b = (r, l, c)" and s: "state b \<noteq> ONLINE"
  shows "emits quiet b c \<and> state c = state b \<and> r = Return ()"
  using assms
  by (auto simp: poll_commands_def time_time_eq check_for_commands_gated quiet_def
      is_time_read_def intro!: emits_log_event emits_single split: if_splits)

lemma no_accepted_fetch_append [simp]:
  "no_accepted_fetch (es @ es') = (no_accepted_fetch es \<and> no_accepted_fetch es')"
  by (auto simp: no_accepted_fetch_def)

lemma log_grows_time_time:
  assumes "time_time E b = (t, c)" "log_grows a b"
  shows "log_grows a c"
  using assms by (auto simp: time_time_def Let_def intro!: log_grows_log_event)

lemma log_grows_fetch_config:
  assumes "fetch_config E b = (r, c)" "log_grows a b"
  shows "log_grows a c"
  using assms
  by (auto simp: fetch_config_def Let_def intro!: log_grows_log_event
      split: outcome.splits http_result.splits if_splits)

lemma log_grows_update_command_status:
  assumes "update_command_status E cid st b = (r, c)" "log_grows a b"
  shows "log_grows a c"
  using assms by (auto simp: update_command_status_def Let_def intro!: log_grows_log_event)

lemma log_grows_dispatch:
  assumes "dispatch E cmd ct b = (r, c)" "log_grows a b"
  shows "log_grows a c"
  using assms
  by (auto simp: dispatch_def call_capture_image_def analyze_snow_depth_def Let_def
      intro!: log_grows_log_event split: outcome.splits if_splits)

lemma log_grows_execute_command:
  assumes "execute_command E cmd b = (r, c)" "log_grows a b"
  shows "log_grows a c"
  using assms
  by (auto simp: execute_command_def
      dest: log_grows_dispatch [where a = a] log_grows_update_command_status [where a = a]
      split: outcome.splits prod.splits)

lemma log_grows_execute_all:
  assumes "execute_all E cs b = (r, c)" "log_grows a b"
  shows "log_grows a c"
  using assms
proof (induction cs arbitrary: b)
  case Nil
  then show ?case by simp
next
  case (Cons x cs)
  obtain r1 b1 where ex: "execute_command E x b = (r1, b1)" by (cases "execute_command E x b")
  have s1: "log_grows a b1" by (rule log_grows_execute_command [OF ex Cons.prems(2)])
  show ?case
  proof (cases r1)
    case (Return u)
    with Cons.prems(1) ex have "execute_all E cs b1 = (r, c)" by simp
    then show ?thesis by (rule Cons.IH [OF _ s1])
  next
    case (Raise e)
    with Cons.prems(1) ex s1 show ?thesis by simp
  qed
qed

lemma log_grows_check_for_commands:
  assumes "check_for_commands E b = (r, c)" "log_grows a b"
  shows "log_grows a c"
  using assms
  by (auto simp: check_for_commands_def Let_def intro!: log_grows_log_event
      dest!: log_grows_execute_all [where a = a]
      split: outcome.splits http_result.splits if_splits)

lemma log_grows_process_sensors:
  assumes "process_sensors E b = (r, c)"
  shows "log_grows b c"
  using emits_process_sensors [OF assms] by (rule emits_log_grows)

lemma log_grows_poll_config:
  assumes "poll_config E lcf b = (r, lcf', c)" "log_grows a b"
  shows "log_grows a c"
  using assms
  by (auto simp: poll_config_def Let_def
      dest!: log_grows_time_time [where a = a] log_grows_fetch_config [where a = a]
      split: outcome.splits prod.splits if_splits)

lemma log_grows_poll_commands:
  assumes "poll_commands E lcc b = (r, lcc', c)" "log_grows a b"
  shows "log_grows a c"
  using assms
  by (auto simp: poll_commands_def Let_def
      dest!: log_grows_time_time [where a = a] log_grows_check_for_commands [where a = a]
      split: outcome.splits prod.splits if_splits)

lemma log_grows_main_loop:
  assumes "main_loop E turns lcf lcc b = (r, c)" "log_grows a b"
  shows "log_grows a c"
  using assms
proof (induction turns arbitrary: lcf lcc b)
  case 0
  then show ?case by simp
next
  case (Suc n)
  obtain r1 l1 b1 where p1: "poll_config E lcf b = (r1, l1, b1)"
    by (cases "poll_config E lcf b")
  obtain r2 l2 b2 where p2: "poll_commands E lcc b1 = (r2, l2, b2)"
    by (cases "poll_commands E lcc b1")
  obtain r3 b3 where p3: "process_sensors E b2 = (r3, b3)"
    by (cases "process_sensors E b2")
  have s1: "log_grows a b1" by (rule log_grows_poll_config [OF p1 Suc.prems(2)])
  have s2: "log_grows a b2" by (rule log_grows_poll_commands [OF p2 s1])
  have s3: "log_grows a b3" by (rule log_grows_trans [OF s2 log_grows_process_sensors [OF p3]])
  show ?case
  proof (cases "r1 = Return () \<and> r2 = Return () \<and> r3 = Return ()")
    case True
    with Suc.prems(1) p1 p2 p3 have "main_loop E n l1 l2 b3 = (r, c)" by simp
    then show ?thesis by (rule Suc.IH [OF _ s3])
  next
    case False
    with Suc.prems(1) p1 p2 p3 s1 s2 s3 show ?thesis
      by (auto split: outcome.splits)
  qed
qed

lemma main_loop_offline:
  assumes "main_loop E turns lcf lcc b = (r, c)" "state b \<noteq> ONLINE"
      and "no_accepted_fetch (emitted b c)"
  shows "state c \<noteq> ONLINE \<and> list_all quiet (emitted b c)"
  using assms
proof (induction turns arbitrary: lcf lcc b)
  case 0
  then show ?case by simp
next
  case (Suc n)
  obtain r1 l1 b1 where p1: "poll_config E lcf b = (r1, l1, b1)"
    by (cases "poll_config E lcf b")
  from poll_config_offline [OF p1 Suc.prems(2)] have
    q1: "emits quiet b b1" and o1: "no_accepted_fetch (emitted b b1) \<longrightarrow> state b1 \<noteq> ONLINE"
    by simp_all
  have g1: "log_grows b b1" using q1 by (rule emits_log_grows)
  show ?case
  proof (cases r1)
    case (Raise e)
    with Suc.prems(1) p1 have "c = b1" by simp
    with q1 o1 Suc.prems(3) show ?thesis by (simp add: emits_def)
  next
    case (Return u)
    obtain r2 l2 b2 where p2: "poll_commands E lcc b1 = (r2, l2, b2)"
      by (cases "poll_commands E lcc b1")
    obtain r3 b3 where p3: "process_sensors E b2 = (r3, b3)"
      by (cases "process_sensors E b2")
    have g2: "log_grows b1 b2" by (rule log_grows_poll_commands [OF p2]) simp
    have g3: "log_grows b2 b3" by (rule log_grows_process_sensors [OF p3])
    obtain r4 where p4: "main_loop E (Suc n) lcf lcc b = (r4, c)" using Suc.prems(1) by blast
    have gc: "log_grows b1 c"
    proof -
      from Suc.prems(1) p1 Return p2 p3 have
        "c = b2 \<or> c = b3 \<or> (\<exists>x. main_loop E n l1 l2 b3 = (x, c))"
        by (auto split: outcome.splits)
      then show ?thesis
        using g2 g3 log_grows_main_loop [of E n l1 l2 b3 _ c b3]
        by (auto intro: log_grows_trans)
    qed
    have e1: "emitted b c = emitted b b1 @ emitted b1 c" by (rule emitted_trans [OF g1 gc])
    with Suc.prems(3) have na1: "no_accepted_fetch (emitted b b1)"
      and nac: "no_accepted_fetch (emitted b1 c)" by simp_all
    from o1 na1 have s1: "state b1 \<noteq> ONLINE" by simp
    from poll_commands_offline [OF p2 s1] have
      q2: "emits quiet b1 b2" and s2: "state b2 = state b1" and r2: "r2 = Return ()"
      by simp_all
    from s1 s2 have s2': "state b2 \<noteq> ONLINE" by simp
    from p3 process_sensors_gated [OF s2', of E] have b3: "b3 = b2" "r3 = Return ()" by simp_all
    from Suc.prems(1) p1 Return p2 r2 p3 b3 have l: "main_loop E n l1 l2 b2 = (r, c)" by simp
    have gl: "log_grows b2 c" by (rule log_grows_main_loop [OF l]) simp
    have e2: "emitted b1 c = emitted b1 b2 @ emitted b2 c" by (rule emitted_trans [OF g2 gl])
    with nac have "no_accepted_fetch (emitted b2 c)" by simp
    from Suc.IH [OF l s2' this] have ih: "state c \<noteq> ONLINE" "list_all quiet (emitted b2 c)"
      by simp_all
    from q1 q2 ih e1 e2 show ?thesis by (simp add: emits_def)
  qed
qed

text \<open>
  C2. A reading submission that ends in a RequestException leaves the state OFFLINE;
  a sampling pass in which a submission fails was begun ONLINE and ends OFFLINE. A
  sampling pass begun in any state but ONLINE returns at once and leaves the agent as it
  was, log included: no driver is resolved or invoked and nothing is submitted. From a
  state that is not ONLINE the main loop, for any number of turns in which no
  configuration fetch is accepted, never gets back to ONLINE, and all it does is to read
  the clock and to request the configuration; a configuration fetch that is accepted
  sets the state to ONLINE.
\<close>

theorem submission_failure_gates_sampling:
  "(request_fails (http_post_reading E (io_log a) p) \<longrightarrow>
      fst (send_reading E p a) = Return () \<and> state (snd (send_reading E p a)) = OFFLINE)
   \<and> (e \<in> set (emitted a (snd (process_sensors E a))) \<and> failed_submission e \<longrightarrow>
        state a = ONLINE \<and> state (snd (process_sensors E a)) = OFFLINE)
   \<and> (state a \<noteq> ONLINE \<longrightarrow> process_sensors E a = (Return (), a))
   \<and> (state a \<noteq> ONLINE
        \<and> no_accepted_fetch (emitted a (snd (main_loop E turns lcf lcc a))) \<longrightarrow>
        state (snd (main_loop E turns lcf lcc a)) \<noteq> ONLINE
        \<and> (\<forall>e' \<in> set (emitted a (snd (main_loop E turns lcf lcc a))).
              is_time_read e' \<or> is_config_fetch e'))
   \<and> (config_accepted (http_get_config E (io_log a)) \<longrightarrow>
        fst (fetch_config E a) = Return () \<and> state (snd (fetch_config E a)) = ONLINE)"
proof -
  have 1: "fst (send_reading E p a) = Return () \<and> state (snd (send_reading E p a)) = OFFLINE"
    if "request_fails (http_post_reading E (io_log a) p)"
    using that
    by (simp add: send_reading_def request_fails_def Let_def split: http_result.splits)
  have 2: "state a = ONLINE \<and> state (snd (process_sensors E a)) = OFFLINE"
    if h: "e \<in> set (emitted a (snd (process_sensors E a)))" "failed_submission e"
  proof -
    obtain r c where p: "process_sensors E a = (r, c)" by (cases "process_sensors E a")
    have on: "state a = ONLINE"
    proof (rule ccontr)
      assume "state a \<noteq> ONLINE"
      from process_sensors_gated [OF this, of E] h(1) show False by simp
    qed
    from offline_step_process_sensors [OF p] h p have "state c = OFFLINE"
      by (auto simp: offline_step_def list_ex_iff)
    with on p show ?thesis by simp
  qed
  have 3: "process_sensors E a = (Return (), a)" if "state a \<noteq> ONLINE"
    using that by (rule process_sensors_gated)
  have 4: "state (snd (main_loop E turns lcf lcc a)) \<noteq> ONLINE
        \<and> (\<forall>e' \<in> set (emitted a (snd (main_loop E turns lcf lcc a))).
              is_time_read e' \<or> is_config_fetch e')"
    if h: "state a \<noteq> ONLINE" "no_accepted_fetch (emitted a (snd (main_loop E turns lcf lcc a)))"
  proof -
    obtain r c where m: "main_loop E turns lcf lcc a = (r, c)"
      by (cases "main_loop E turns lcf lcc a")
    from main_loop_offline [OF m h(1)] h(2) m show ?thesis
      by (simp add: list_all_iff quiet_def)
  qed
  have 5: "fst (fetch_config E a) = Return () \<and> state (snd (fetch_config E a)) = ONLINE"
    if "config_accepted (http_get_config E (io_log a))"
    using that fetch_config_accepted [of E a] fetch_config_online [of E a] by simp
  from 1 2 3 4 5 show ?thesis by blast
qed

theorem submission_failure_gates_sampling_witness:
  "request_fails (http_post_reading post_fails_env (io_log lidar_agent) JNull)
   \<and> state (snd (send_reading post_fails_env JNull lidar_agent)) = OFFLINE
   \<and> HttpPostReading
        (JDict [(''sensor'', JInt 1), (''value'', JDict [(''distance_cm'', JFloat 30)])])
        (Response 500 JNull)
       \<in> set (emitted lidar_agent (snd (process_sensors post_fails_env lidar_agent)))
   \<and> failed_submission
        (HttpPostReading
           (JDict [(''sensor'', JInt 1), (''value'', JDict [(''distance_cm'', JFloat 30)])])
           (Response 500 JNull))
   \<and> state lidar_agent = ONLINE
   \<and> state offline_agent = OFFLINE
   \<and> state offline_agent \<noteq> ONLINE
   \<and> process_sensors lidar_env offline_agent = (Return (), offline_agent)
   \<and> emitted offline_agent
        (snd (main_loop dead_env (Suc (Suc 0)) (- 100) 0 offline_agent))
       = [TimeRead 0, HttpGetConfig RequestFails, TimeRead 0, TimeRead 0, TimeRead 0,
          TimeRead 0]
   \<and> no_accepted_fetch
        (emitted offline_agent
           (snd (main_loop dead_env (Suc (Suc 0)) (- 100) 0 offline_agent)))
   \<and> state (snd (main_loop dead_env (Suc (Suc 0)) (- 100) 0 offline_agent)) \<noteq> ONLINE
   \<and> config_accepted (http_get_config lidar_env (io_log offline_agent))
   \<and> state (snd (fetch_config lidar_env offline_agent)) = ONLINE"
proof -
  have f: "request_fails (http_post_reading post_fails_env (io_log lidar_agent) JNull)"
    by (simp add: post_fails_env_def request_fails_def raise_for_status_def example_defs)
  have m: "HttpPostReading
        (JDict [(''sensor'', JInt 1), (''value'', JDict [(''distance_cm'', JFloat 30)])])
        (Response 500 JNull)
       \<in> set (emitted lidar_agent (snd (process_sensors post_fails_env lidar_agent)))"
    by (simp add: eval_defs example_defs post_fails_env_def emitted_def)
  have fs: "failed_submission
        (HttpPostReading
           (JDict [(''sensor'', JInt 1), (''value'', JDict [(''distance_cm'', JFloat 30)])])
           (Response 500 JNull))"
    by (simp add: failed_submission_def request_fails_def raise_for_status_def)
  have o: "state offline_agent = OFFLINE"
    using submission_failure_gates_sampling [where a = lidar_agent and E = post_fails_env
        and e = "HttpPostReading
          (JDict [(''sensor'', JInt 1), (''value'', JDict [(''distance_cm'', JFloat 30)])])
          (Response 500 JNull)"] m fs
    by (simp add: offline_agent_def)
  then have n: "state offline_agent \<noteq> ONLINE" by simp
  have l: "emitted offline_agent
        (snd (main_loop dead_env (Suc (Suc 0)) (- 100) 0 offline_agent))
       = [TimeRead 0, HttpGetConfig RequestFails, TimeRead 0, TimeRead 0, TimeRead 0,
          TimeRead 0]"
    by (simp add: offline_agent_def eval_defs example_defs post_fails_env_def emitted_def)
  have na: "no_accepted_fetch
        (emitted offline_agent
           (snd (main_loop dead_env (Suc (Suc 0)) (- 100) 0 offline_agent)))"
    unfolding l by (auto simp: no_accepted_fetch_def config_accepted_def)
  have ca: "config_accepted (http_get_config lidar_env (io_log offline_agent))"
    by (simp add: config_accepted_def sized_def raise_for_status_def example_defs)
  have on: "state lidar_agent = ONLINE" by (simp add: example_defs)
  show ?thesis
    using submission_failure_gates_sampling [where a = lidar_agent and E = post_fails_env
        and p = JNull]
      submission_failure_gates_sampling [where a = offline_agent and E = lidar_env]
      submission_failure_gates_sampling [where a = offline_agent and E = dead_env
        and turns = "Suc (Suc 0)" and lcf = "- 100" and lcc = 0]
      f m fs o n l na ca on
    by blast
qed

end
